theory Spec2Isabelle
  imports Complex_Main "HOL-Library.Multiset"
begin

section \<open>The plotting helpers of freud.plot\<close>

text \<open>
  The module draws on chart axes through the plotting library. The model keeps the
  objects the module handles (figures, axes, arrays, files) in a store and records every
  library call made on an axes object, in order, in that object's list of calls. Numbers
  are real numbers: the rounding of float64 arithmetic is not modelled.
\<close>

subsection \<open>Values\<close>

type_synonym ref = nat

type_synonym vec3 = "real \<times> real \<times> real"

datatype error =
    RuntimeError string | AttributeError string | ValueError string | TypeError string
  | IndexError string | KeyError string

text \<open>An array entry that may be infinite or not a number.\<close>

datatype flt = Fin real | PInf | NInf | NaN

text \<open>A tick position or label: a number or a string.\<close>

datatype tick = TNum real | TStr string

type_synonym kwargs = "(string \<times> string) list"

datatype norm = LogNorm real real

record image =
  im_data :: "flt list list"
  im_extent :: "real list"
  im_interpolation :: "string option"
  im_cmap :: "string option"
  im_vmin :: "real option"
  im_vmax :: "real option"
  im_norm :: "norm option"

text \<open>A colormap as \<open>cm.get_cmap(name, lut)\<close> returns it.\<close>

datatype colormap = Colormap "string option" "nat option"

record patch_collection =
  pc_patches :: "(real \<times> real) list list"
  pc_edgecolors :: string
  pc_alpha :: real
  pc_array :: "real list option"
  pc_cmap :: "colormap option"
  pc_clim :: "(real \<times> real) option"

datatype mappable = MImage image | MPatches patch_collection

text \<open>The library calls the module makes on an axes object.\<close>

datatype cmd =
    Plot "real list" "real list" "string list" kwargs
  | Plot3D "real list" "real list" "real list" kwargs
  | Scatter "real list" "real list" "string list" kwargs
  | Scatter3D "real list" "real list" "real list" "string list" kwargs
  | Bar "tick list" "real list"
  | Hist "real list"
  | Imshow image
  | AddCollection patch_collection
  | Legend "string list"
  | SetTitle "string option"
  | SetXLabel "string option"
  | SetYLabel "string option"
  | SetZLabel "string option"
  | SetAspect string string
  | SetXLim real real
  | SetYLim real real
  | SetXLim3d real real
  | SetYLim3d real real
  | SetZLim3d real real
  | SetXTicks "tick list"
  | SetXTickLabels "tick list"
  | XAxisSetTicks "int list"
  | YAxisSetTicks "int list"
  | XAxisSetMajorLocator nat bool nat
  | YAxisSetMajorLocator nat bool nat
  | XAxisSetMajorFormatter string
  | YAxisSetMajorFormatter string
  | AppendAxes string string string ref
  | Colorbar mappable
  | ColorbarSetLabel string
  | ColorbarSetTicks "real list"

subsection \<open>The store\<close>

record axes_obj =
  ax_figure :: ref
  ax_is3d :: bool
  ax_drawn :: "cmd list"

record figure_obj =
  fig_axes :: "ref list"
  fig_canvas :: string

text \<open>
  Objects live in lists and a reference is an index: creating an object appends it, so a
  new reference is one that no object had before. \<open>files\<close> is the file system and
  \<open>warnings\<close> the warnings issued so far.
\<close>

record world =
  axes :: "axes_obj list"
  figures :: "figure_obj list"
  arrays :: "flt list list list"
  files :: "(string \<times> nat list) list"
  warnings :: "string list"

definition lookup_axes :: "ref \<Rightarrow> world \<Rightarrow> axes_obj option" where
  "lookup_axes a st = (if a < length (axes st) then Some (axes st ! a) else None)"

definition drawn :: "world \<Rightarrow> ref \<Rightarrow> cmd list" where
  "drawn st a = (case lookup_axes a st of None \<Rightarrow> [] | Some obj \<Rightarrow> ax_drawn obj)"

subsection \<open>Computations that may raise\<close>

type_synonym 'a prog = "world \<Rightarrow> (error + 'a) \<times> world"

definition returnP :: "'a \<Rightarrow> 'a prog" where
  "returnP x = (\<lambda>st. (Inr x, st))"

definition raiseP :: "error \<Rightarrow> 'a prog" where
  "raiseP e = (\<lambda>st. (Inl e, st))"

definition bindP :: "'a prog \<Rightarrow> ('a \<Rightarrow> 'b prog) \<Rightarrow> 'b prog" where
  "bindP m f = (\<lambda>st. case m st of (Inl e, st') \<Rightarrow> (Inl e, st') | (Inr x, st') \<Rightarrow> f x st')"

definition thenP :: "unit prog \<Rightarrow> 'b prog \<Rightarrow> 'b prog" where
  "thenP m n = bindP m (\<lambda>_. n)"

subsection \<open>The plotting library\<close>

text \<open>
  \<open>set_zlabel\<close> and the 3D limit setters exist on 3D axes only. A call on a reference
  that is not an axes object, or a 3D-only call on 2D axes, raises AttributeError and
  changes nothing; any other call is recorded on the axes. The library's own checks of
  argument shapes are not modelled.
\<close>

fun needs3d :: "cmd \<Rightarrow> bool" where
  "needs3d (SetZLabel _) = True"
| "needs3d (SetXLim3d _ _) = True"
| "needs3d (SetYLim3d _ _) = True"
| "needs3d (SetZLim3d _ _) = True"
| "needs3d _ = False"

definition ax_call :: "ref \<Rightarrow> cmd \<Rightarrow> unit prog" where
  "ax_call a c st =
     (case lookup_axes a st of
        None \<Rightarrow> (Inl (AttributeError ''not an axes object''), st)
      | Some obj \<Rightarrow>
          if needs3d c \<and> \<not> ax_is3d obj
          then (Inl (AttributeError ''not a 3D axes object''), st)
          else (Inr (), st\<lparr>axes := (axes st)[a := obj\<lparr>ax_drawn := ax_drawn obj @ [c]\<rparr>]\<rparr>))"

fun ax_calls :: "ref \<Rightarrow> cmd list \<Rightarrow> unit prog" where
  "ax_calls a [] = returnP ()"
| "ax_calls a (c # cs) = thenP (ax_call a c) (ax_calls a cs)"

text \<open>\<open>plt.figure()\<close>.\<close>

definition plt_figure :: "ref prog" where
  "plt_figure st =
     (Inr (length (figures st)),
      st\<lparr>figures := figures st @ [\<lparr>fig_axes = [], fig_canvas = ''default''\<rparr>]\<rparr>)"

text \<open>\<open>fig.subplots()\<close>, \<open>fig.add_subplot(111, projection="3d")\<close> and the axes that
  \<open>append_axes\<close> creates: a new axes object in figure \<open>f\<close>.\<close>

definition fig_add_axes :: "ref \<Rightarrow> bool \<Rightarrow> ref prog" where
  "fig_add_axes f is3d st =
     (if f < length (figures st)
      then (Inr (length (axes st)),
            st\<lparr>axes := axes st @ [\<lparr>ax_figure = f, ax_is3d = is3d, ax_drawn = []\<rparr>],
               figures := (figures st)[f := (figures st ! f)
                            \<lparr>fig_axes := fig_axes (figures st ! f) @ [length (axes st)]\<rparr>]\<rparr>)
      else (Inl (AttributeError ''not a figure''), st))"

text \<open>The start of every helper: \<open>if ax is None: fig = plt.figure(); ax = fig.subplots()\<close>.\<close>

definition default_axes :: "ref option \<Rightarrow> bool \<Rightarrow> ref prog" where
  "default_axes ax is3d =
     (case ax of
        None \<Rightarrow> bindP plt_figure (\<lambda>fig. fig_add_axes fig is3d)
      | Some a \<Rightarrow> returnP a)"

text \<open>\<open>make_axes_locatable(ax).append_axes(position, size=size, pad=pad)\<close>: a new
  axes object beside \<open>ax\<close>, in the figure of \<open>ax\<close>.\<close>

definition append_axes :: "ref \<Rightarrow> string \<Rightarrow> string \<Rightarrow> string \<Rightarrow> ref prog" where
  "append_axes a position sz pad st =
     (case lookup_axes a st of
        None \<Rightarrow> (Inl (AttributeError ''not an axes object''), st)
      | Some obj \<Rightarrow>
          bindP (fig_add_axes (ax_figure obj) False)
            (\<lambda>cax. thenP (ax_call a (AppendAxes position sz pad cax)) (returnP cax)) st)"

subsection \<open>Strings of numbers\<close>

fun str_nat :: "nat \<Rightarrow> string" where
  "str_nat n =
     (if n < 10 then [char_of (48 + n)] else str_nat (n div 10) @ [char_of (48 + n mod 10)])"

declare str_nat.simps [simp del]

definition str_int :: "int \<Rightarrow> string" where
  "str_int i = (if i < 0 then CHR ''-'' # str_nat (nat (- i)) else str_nat (nat i))"

subsection \<open>bar_plot and clusters_plot\<close>

definition bar_plot ::
  "tick list \<Rightarrow> real list \<Rightarrow> string option \<Rightarrow> string option \<Rightarrow> string option \<Rightarrow> ref option
     \<Rightarrow> ref prog" where
  "bar_plot x height title xlabel ylabel ax =
     bindP (default_axes ax False) (\<lambda>a.
       thenP (ax_calls a
                [Bar x height, SetTitle title, SetXLabel xlabel, SetYLabel ylabel,
                 SetXTicks x, SetXTickLabels x])
         (returnP a))"

text \<open>
  \<open>sorted\<close> is stable, as \<open>sort_key\<close> is. \<open>num_clusters_to_plot\<close> is documented as an
  unsigned int, so the slice \<open>[:num_clusters_to_plot]\<close> is \<open>take\<close>.
\<close>

definition clusters_plot :: "int list \<Rightarrow> real list \<Rightarrow> nat \<Rightarrow> ref option \<Rightarrow> ref prog" where
  "clusters_plot keys freqs num_clusters_to_plot ax =
     (let count_sorted = sort_key (\<lambda>x. - fst x) (map (\<lambda>(key, freq). (freq, key)) (zip keys freqs));
          sorted_freqs = map fst (take num_clusters_to_plot count_sorted);
          sorted_keys = map (\<lambda>i. TStr (str_int (snd i))) (take num_clusters_to_plot count_sorted)
      in bar_plot sorted_keys sorted_freqs (Some ''Cluster Frequency'')
           (Some (''Keys of '' @ str_nat (length sorted_freqs)
                  @ '' largest clusters (total clusters: '' @ str_nat (length freqs) @ '')''))
           (Some ''Number of particles'') ax)"

subsection \<open>line_plot and histogram_plot\<close>

definition line_plot ::
  "real list \<Rightarrow> real list \<Rightarrow> string option \<Rightarrow> string option \<Rightarrow> string option \<Rightarrow> ref option
     \<Rightarrow> ref prog" where
  "line_plot x y title xlabel ylabel ax =
     bindP (default_axes ax False) (\<lambda>a.
       thenP (ax_calls a [Plot x y [] [], SetTitle title, SetXLabel xlabel, SetYLabel ylabel])
         (returnP a))"

definition histogram_plot ::
  "real list \<Rightarrow> string option \<Rightarrow> string option \<Rightarrow> string option \<Rightarrow> ref option
     \<Rightarrow> string list option \<Rightarrow> ref prog" where
  "histogram_plot values title xlabel ylabel ax legend_labels =
     bindP (default_axes ax False) (\<lambda>a.
       thenP (ax_calls a [Hist values, SetTitle title, SetXLabel xlabel, SetYLabel ylabel])
         (thenP (case legend_labels of
                   None \<Rightarrow> returnP ()
                 | Some labels \<Rightarrow> ax_call a (Legend labels))
            (returnP a)))"

subsection \<open>Arrays\<close>

text \<open>\<open>np.min\<close> and \<open>np.max\<close> raise ValueError on an empty array.\<close>

definition np_min :: "real list \<Rightarrow> real prog" where
  "np_min xs =
     (case xs of
        [] \<Rightarrow> raiseP (ValueError ''zero-size array to reduction operation minimum'')
      | x # rest \<Rightarrow> returnP (foldl min x rest))"

definition np_max :: "real list \<Rightarrow> real prog" where
  "np_max xs =
     (case xs of
        [] \<Rightarrow> raiseP (ValueError ''zero-size array to reduction operation maximum'')
      | x # rest \<Rightarrow> returnP (foldl max x rest))"

text \<open>\<open>np.ptp\<close>: the maximum minus the minimum.\<close>

definition np_ptp :: "nat list \<Rightarrow> nat prog" where
  "np_ptp xs =
     (case xs of
        [] \<Rightarrow> raiseP (ValueError ''zero-size array to reduction operation maximum'')
      | x # rest \<Rightarrow> returnP (foldl max x rest - foldl min x rest))"

text \<open>\<open>np.arange(start, stop)\<close> with step 1.\<close>

definition np_arange :: "real \<Rightarrow> real \<Rightarrow> real list" where
  "np_arange start stop = map (\<lambda>k. start + real k) [0..<nat \<lceil>stop - start\<rceil>]"

definition np_clip :: "real list list \<Rightarrow> real \<Rightarrow> real \<Rightarrow> real list list" where
  "np_clip arr a_min a_max = map (map (\<lambda>v. min (max v a_min) a_max)) arr"

definition np_flipud :: "'a list list \<Rightarrow> 'a list list" where
  "np_flipud arr = rev arr"

definition first :: "'a list \<Rightarrow> 'a prog" where
  "first xs = (case xs of [] \<Rightarrow> raiseP (IndexError ''index 0 is out of bounds'') | x # _ \<Rightarrow> returnP x)"

definition final :: "'a list \<Rightarrow> 'a prog" where
  "final xs = (if xs = [] then raiseP (IndexError ''index -1 is out of bounds'') else returnP (last xs))"

text \<open>Arrays that the caller owns live in the store. \<open>np.copy\<close> makes a new array.\<close>

definition read_array :: "ref \<Rightarrow> flt list list prog" where
  "read_array r st =
     (if r < length (arrays st) then (Inr (arrays st ! r), st)
      else (Inl (AttributeError ''not an array''), st))"

definition np_copy :: "ref \<Rightarrow> ref prog" where
  "np_copy r st =
     (if r < length (arrays st)
      then (Inr (length (arrays st)), st\<lparr>arrays := arrays st @ [arrays st ! r]\<rparr>)
      else (Inl (AttributeError ''not an array''), st))"

fun isinf :: "flt \<Rightarrow> bool" where
  "isinf PInf = True"
| "isinf NInf = True"
| "isinf _ = False"

text \<open>\<open>arr[np.isinf(arr)] = np.nan\<close>, in place.\<close>

definition set_inf_to_nan :: "ref \<Rightarrow> unit prog" where
  "set_inf_to_nan r st =
     (if r < length (arrays st)
      then (Inr (), st\<lparr>arrays := (arrays st)
                [r := map (map (\<lambda>v. if isinf v then NaN else v)) (arrays st ! r)]\<rparr>)
      else (Inl (AttributeError ''not an array''), st))"

text \<open>\<open>int(x)\<close> of a float truncates towards zero; \<open>range(a, b)\<close>.\<close>

definition py_int :: "real \<Rightarrow> int" where
  "py_int x = (if 0 \<le> x then \<lfloor>x\<rfloor> else \<lceil>x\<rceil>)"

definition py_range :: "int \<Rightarrow> int \<Rightarrow> int list" where
  "py_range a b = [a..b - 1]"

text \<open>\<open>kwargs.pop(key, default)\<close>.\<close>

definition kwargs_pop :: "string \<Rightarrow> string \<Rightarrow> kwargs \<Rightarrow> string \<times> kwargs" where
  "kwargs_pop key dflt kw =
     (case map_of kw key of
        None \<Rightarrow> (dflt, kw)
      | Some v \<Rightarrow> (v, filter (\<lambda>(k, _). k \<noteq> key) kw))"

subsection \<open>Equal scales on 3D axes\<close>

text \<open>
  The view limits of 3D axes are the last limits set on them, and \<open>(0, 1)\<close> on axes where
  none were set. (The library's autoscaling to the drawn data is not modelled.)
\<close>

definition get_xlim3d_of :: "cmd list \<Rightarrow> real \<times> real" where
  "get_xlim3d_of cs = foldl (\<lambda>acc c. case c of SetXLim3d lo hi \<Rightarrow> (lo, hi) | _ \<Rightarrow> acc) (0, 1) cs"

definition get_ylim3d_of :: "cmd list \<Rightarrow> real \<times> real" where
  "get_ylim3d_of cs = foldl (\<lambda>acc c. case c of SetYLim3d lo hi \<Rightarrow> (lo, hi) | _ \<Rightarrow> acc) (0, 1) cs"

definition get_zlim3d_of :: "cmd list \<Rightarrow> real \<times> real" where
  "get_zlim3d_of cs = foldl (\<lambda>acc c. case c of SetZLim3d lo hi \<Rightarrow> (lo, hi) | _ \<Rightarrow> acc) (0, 1) cs"

definition get_lims3d ::
  "ref \<Rightarrow> ((real \<times> real) \<times> (real \<times> real) \<times> (real \<times> real)) prog" where
  "get_lims3d a st =
     (case lookup_axes a st of
        None \<Rightarrow> (Inl (AttributeError ''not an axes object''), st)
      | Some obj \<Rightarrow>
          if \<not> ax_is3d obj then (Inl (AttributeError ''not a 3D axes object''), st)
          else (Inr (get_xlim3d_of (ax_drawn obj), get_ylim3d_of (ax_drawn obj),
                     get_zlim3d_of (ax_drawn obj)), st))"

definition set_3d_axes_equal ::
  "ref \<Rightarrow> ((real \<times> real) \<times> (real \<times> real) \<times> (real \<times> real)) option \<Rightarrow> ref prog" where
  "set_3d_axes_equal ax limits =
     bindP (case limits of None \<Rightarrow> get_lims3d ax | Some l \<Rightarrow> returnP l)
       (\<lambda>((x0, x1), (y0, y1), (z0, z1)).
          let origin = ((x0 + x1) / 2, (y0 + y1) / 2, (z0 + z1) / 2);
              radius = 0.5 * max (x1 - x0) (max (y1 - y0) (z1 - z0))
          in thenP (ax_calls ax
                      [SetXLim3d (fst origin - radius) (fst origin + radius),
                       SetYLim3d (fst (snd origin) - radius) (fst (snd origin) + radius),
                       SetZLim3d (snd (snd origin) - radius) (snd (snd origin) + radius)])
               (returnP ax))"

subsection \<open>box_plot and system_plot\<close>

text \<open>
  A simulation box is computed elsewhere; \<open>make_absolute\<close> is its map from fractional to
  absolute coordinates.
\<close>

record box =
  is2D :: bool
  Lx :: real
  Ly :: real
  make_absolute :: "vec3 \<Rightarrow> vec3"

record system =
  sys_box :: box
  sys_points :: "vec3 list"

definition vx :: "vec3 \<Rightarrow> real" where
  "vx p = fst p"

definition vy :: "vec3 \<Rightarrow> real" where
  "vy p = fst (snd p)"

definition vz :: "vec3 \<Rightarrow> real" where
  "vz p = snd (snd p)"

definition add_image :: "int \<times> int \<times> int \<Rightarrow> int \<times> int \<times> int \<Rightarrow> vec3" where
  "add_image img c =
     (case (img, c) of
        ((i, j, k), (x, y, z)) \<Rightarrow> (real_of_int (x + i), real_of_int (y + j), real_of_int (z + k)))"

text \<open>The loop over the edge paths of a 3D box: each pass pops \<open>color\<close> from the keyword
  arguments, so only the first pass can find a colour the caller gave.\<close>

fun plot_paths :: "ref \<Rightarrow> vec3 list list \<Rightarrow> kwargs \<Rightarrow> unit prog" where
  "plot_paths a [] kw = returnP ()"
| "plot_paths a (path # paths) kw =
     (case kwargs_pop ''color'' ''k'' kw of
        (color, kw') \<Rightarrow>
          thenP (ax_call a (Plot3D (map vx path) (map vy path) (map vz path) [(''color'', color)]))
            (plot_paths a paths kw'))"

definition box_plot ::
  "box \<Rightarrow> string option \<Rightarrow> ref option \<Rightarrow> (int \<times> int \<times> int) option \<Rightarrow> string list \<Rightarrow> kwargs
     \<Rightarrow> ref prog" where
  "box_plot bx title ax image_arg args kw =
     (let img = (case image_arg of None \<Rightarrow> (0, 0, 0) | Some i \<Rightarrow> i)
      in bindP (default_axes ax (\<not> is2D bx)) (\<lambda>a.
           if is2D bx then
             (let corners = map (\<lambda>c. make_absolute bx (add_image img c))
                              [(0, 0, 0), (0, 1, 0), (1, 1, 0), (1, 0, 0), (0, 0, 0)]
              in case kwargs_pop ''color'' ''k'' kw of
                   (color, kw') \<Rightarrow>
                     thenP (ax_calls a
                              [Plot (map vx corners) (map vy corners) args ((''color'', color) # kw'),
                               SetAspect ''equal'' ''datalim'',
                               SetXLabel (Some ''$x$''), SetYLabel (Some ''$y$'')])
                       (returnP a))
           else
             (let corners = map (\<lambda>c. make_absolute bx (add_image img c))
                              [(0, 0, 0), (0, 0, 1), (0, 1, 0), (0, 1, 1),
                               (1, 0, 0), (1, 0, 1), (1, 1, 0), (1, 1, 1)];
                  paths = [map (\<lambda>i. corners ! i) [0, 1, 3, 2, 0],
                           map (\<lambda>i. corners ! i) [4, 5, 7, 6, 4],
                           map (\<lambda>i. corners ! i) [0, 4],
                           map (\<lambda>i. corners ! i) [1, 5],
                           map (\<lambda>i. corners ! i) [2, 6],
                           map (\<lambda>i. corners ! i) [3, 7]];
                  limits = ((vx (corners ! 0), vx (corners ! 7)),
                            (vy (corners ! 0), vy (corners ! 7)),
                            (vz (corners ! 0), vz (corners ! 7)))
              in thenP (plot_paths a paths kw)
                   (thenP (ax_calls a
                             [SetXLabel (Some ''$x$''), SetYLabel (Some ''$y$''),
                              SetZLabel (Some ''$z$'')])
                      (bindP (set_3d_axes_equal a (Some limits)) (\<lambda>_. returnP a))))))"

text \<open>\<open>np.min(points, axis=0)\<close> and \<open>np.max(points, axis=0)\<close>.\<close>

definition points_min :: "vec3 list \<Rightarrow> vec3 prog" where
  "points_min ps =
     bindP (np_min (map vx ps)) (\<lambda>x. bindP (np_min (map vy ps)) (\<lambda>y.
       bindP (np_min (map vz ps)) (\<lambda>z. returnP (x, y, z))))"

definition points_max :: "vec3 list \<Rightarrow> vec3 prog" where
  "points_max ps =
     bindP (np_max (map vx ps)) (\<lambda>x. bindP (np_max (map vy ps)) (\<lambda>y.
       bindP (np_max (map vz ps)) (\<lambda>z. returnP (x, y, z))))"

text \<open>The scatter handle that \<open>system_plot\<close> returns beside the axes is the recorded call.\<close>

definition system_plot ::
  "system \<Rightarrow> string option \<Rightarrow> ref option \<Rightarrow> string list \<Rightarrow> kwargs \<Rightarrow> (ref \<times> cmd) prog" where
  "system_plot sys title ax args kw =
     (let bx = sys_box sys; pts = sys_points sys
      in bindP (default_axes ax (\<not> is2D bx)) (\<lambda>a.
           if is2D bx then
             bindP (box_plot bx None (Some a) None [] []) (\<lambda>_.
               let sc = Scatter (map vx pts) (map vy pts) args kw
               in thenP (ax_calls a [sc, SetAspect ''equal'' ''datalim'']) (returnP (a, sc)))
           else
             bindP (box_plot bx None (Some a) None [] []) (\<lambda>_.
               let sc = Scatter3D (map vx pts) (map vy pts) (map vz pts) args kw
               in thenP (ax_call a sc)
                    (let box_min = make_absolute bx (0, 0, 0);
                         box_max = make_absolute bx (1, 1, 1)
                     in bindP (points_min pts) (\<lambda>pmin. bindP (points_max pts) (\<lambda>pmax.
                          let limits = ((min (vx box_min) (vx pmin), max (vx box_max) (vx pmax)),
                                        (min (vy box_min) (vy pmin), max (vy box_max) (vy pmax)),
                                        (min (vz box_min) (vz pmin), max (vz box_max) (vz pmax)))
                          in bindP (set_3d_axes_equal a (Some limits))
                               (\<lambda>_. returnP (a, sc))))))))"

subsection \<open>pmft_plot and density_plot\<close>

text \<open>A PMFT object: its array, held in the store, and its bounds \<open>(xlims, ylims)\<close>.\<close>

record pmft_obj =
  pmft :: ref
  bounds :: "(real \<times> real) \<times> (real \<times> real)"

text \<open>The drawing part of \<open>pmft_plot\<close>, on the copy \<open>pmft_arr\<close> of the array.\<close>

definition pmft_draw :: "pmft_obj \<Rightarrow> ref \<Rightarrow> string \<Rightarrow> ref \<Rightarrow> ref prog" where
  "pmft_draw p a cmap pmft_arr =
     (case bounds p of
        ((xl0, xl1), (yl0, yl1)) \<Rightarrow>
          thenP (ax_calls a
                   [SetXLim xl0 xl1, SetYLim yl0 yl1,
                    XAxisSetTicks (py_range (py_int xl0) (py_int (xl1 + 1))),
                    YAxisSetTicks (py_range (py_int yl0) (py_int (yl1 + 1))),
                    SetXLabel (Some ''$x$''), SetYLabel (Some ''$y$''),
                    SetTitle (Some ''PMFT'')])
            (bindP (append_axes a ''right'' ''7%'' ''10%'') (\<lambda>cax.
               bindP (read_array pmft_arr) (\<lambda>arr.
                 let im = \<lparr>im_data = np_flipud arr, im_extent = [xl0, xl1, yl0, yl1],
                           im_interpolation = Some ''nearest'', im_cmap = Some cmap,
                           im_vmin = Some (- 2.5), im_vmax = Some 3.0, im_norm = None\<rparr>
                 in thenP (ax_call a (Imshow im))
                      (thenP (ax_calls cax
                                [Colorbar (MImage im), ColorbarSetLabel ''$k_B T$''])
                         (returnP a))))))"

definition pmft_plot :: "pmft_obj \<Rightarrow> ref option \<Rightarrow> string \<Rightarrow> ref prog" where
  "pmft_plot p ax cmap =
     bindP (default_axes ax False) (\<lambda>a.
       bindP (np_copy (pmft p)) (\<lambda>pmft_arr.
         thenP (set_inf_to_nan pmft_arr) (pmft_draw p a cmap pmft_arr)))"

definition density_plot :: "real list list \<Rightarrow> box \<Rightarrow> ref option \<Rightarrow> ref prog" where
  "density_plot density bx ax =
     bindP (default_axes ax False) (\<lambda>a.
       let xlims = (- Lx bx / 2, Lx bx / 2);
           ylims = (- Ly bx / 2, Ly bx / 2)
       in thenP (ax_calls a
                   [SetTitle (Some ''Gaussian Density''),
                    SetXLabel (Some ''$x$''), SetYLabel (Some ''$y$'')])
            (bindP (append_axes a ''right'' ''7%'' ''10%'') (\<lambda>cax.
               let im = \<lparr>im_data = map (map Fin) (np_flipud (transpose density)),
                         im_extent = [fst xlims, snd xlims, fst ylims, snd ylims],
                         im_interpolation = None, im_cmap = None,
                         im_vmin = None, im_vmax = None, im_norm = None\<rparr>
               in thenP (ax_call a (Imshow im))
                    (thenP (ax_calls cax [Colorbar (MImage im), ColorbarSetLabel ''Density''])
                       (returnP a)))))"

subsection \<open>voronoi_plot\<close>

record voronoi_obj =
  polytopes :: "vec3 list list"
  volumes :: "real list"

definition warn :: "string \<Rightarrow> unit prog" where
  "warn msg st = (Inr (), st\<lparr>warnings := warnings st @ [msg]\<rparr>)"

text \<open>\<open>num_colors <= 10\<close> and \<open>num_colors > 20\<close>: comparing \<open>None\<close> with a number raises
  TypeError.\<close>

definition num_le :: "nat option \<Rightarrow> nat \<Rightarrow> bool prog" where
  "num_le n k =
     (case n of
        None \<Rightarrow> raiseP (TypeError ''<= not supported between NoneType and int'')
      | Some m \<Rightarrow> returnP (m \<le> k))"

definition num_gt :: "nat option \<Rightarrow> nat \<Rightarrow> bool prog" where
  "num_gt n k =
     (case n of
        None \<Rightarrow> raiseP (TypeError ''> not supported between NoneType and int'')
      | Some m \<Rightarrow> returnP (m > k))"

text \<open>
  The colours of the cells and their number, by colouring mode. With no mode, the colours
  are \<open>np.random.RandomState().permutation(np.arange(len(patches)))\<close>: a permutation
  drawn by a generator that is seeded anew at each call. \<open>permutation\<close> stands for the
  draw of that generator.
\<close>

definition cell_colors ::
  "(nat list \<Rightarrow> nat list) \<Rightarrow> voronoi_obj \<Rightarrow> (real \<times> real) list list \<Rightarrow> string option
     \<Rightarrow> (real list \<times> nat option) prog" where
  "cell_colors permutation voronoi patches color_by =
     (if color_by = Some ''sides'' then
        (let colors = map length (polytopes voronoi)
         in bindP (np_ptp colors) (\<lambda>ptp. returnP (map real colors, Some (ptp + 1))))
      else if color_by = Some ''area'' then
        returnP (volumes voronoi, None)
      else if color_by = None then
        (let colors = permutation [0..<length patches]
         in returnP (map real colors, Some (length (remdups colors))))
      else
        raiseP (RuntimeError (''Invalid color_by option '' @ the color_by @ ''.'')))"

text \<open>The choice of a colormap when the caller names none.\<close>

definition choose_cmap :: "string option \<Rightarrow> string option \<Rightarrow> nat option \<Rightarrow> string option prog" where
  "choose_cmap cmap color_by num_colors =
     (if cmap = None \<and> color_by \<notin> set [Some ''area''] then
        bindP (if color_by \<noteq> None then num_le num_colors 10 else returnP False) (\<lambda>few.
          if few then returnP (Some ''tab10'')
          else
            bindP (num_gt num_colors 20) (\<lambda>many.
              thenP (if many
                     then warn (''More than 20 unique colors were requested. ''
                                @ ''Consider providing a colormap to the cmap argument.'')
                     else returnP ())
                (returnP (Some ''tab20''))))
      else returnP cmap)"

definition color_by_labels :: "string \<Rightarrow> string prog" where
  "color_by_labels key =
     (case map_of [(''sides'', ''Number of sides''), (''area'', ''Polytope Area'')] key of
        None \<Rightarrow> raiseP (KeyError key)
      | Some v \<Rightarrow> returnP v)"

text \<open>The patch collection of the cells with its colours, colormap and colour limits,
  and the bounds of the colour scale.\<close>

definition voronoi_patches ::
  "(nat list \<Rightarrow> nat list) \<Rightarrow> voronoi_obj \<Rightarrow> string option \<Rightarrow> string option
     \<Rightarrow> (patch_collection \<times> real list) prog" where
  "voronoi_patches permutation voronoi color_by cmap =
     (let patches = map (map (\<lambda>v. (vx v, vy v))) (polytopes voronoi);
          patch_collection = \<lparr>pc_patches = patches, pc_edgecolors = ''black'', pc_alpha = 0.4,
                              pc_array = None, pc_cmap = None, pc_clim = None\<rparr>
      in bindP (cell_colors permutation voronoi patches color_by) (\<lambda>(colors, num_colors).
           bindP (choose_cmap cmap color_by num_colors) (\<lambda>cmap_name.
             bindP (np_min colors) (\<lambda>lo.
               bindP (np_max colors) (\<lambda>hi.
                 let bnds = np_arange lo (hi + 1)
                 in bindP (first bnds) (\<lambda>b0.
                      bindP (final bnds) (\<lambda>b1.
                        returnP (patch_collection
                                   \<lparr>pc_array := Some (map (\<lambda>c. c - 0.5) colors),
                                    pc_cmap := Some (Colormap cmap_name num_colors),
                                    pc_clim := Some (b0 - 0.5, b1 + 0.5)\<rparr>, bnds))))))))"

text \<open>The outline of the box, the title, the limits and the aspect.\<close>

definition voronoi_box :: "ref \<Rightarrow> box \<Rightarrow> unit prog" where
  "voronoi_box a bx =
     (let corners = map (make_absolute bx)
                      [(0, 0, 0), (0, 1, 0), (1, 1, 0), (1, 0, 0), (0, 0, 0)]
      in thenP (ax_calls a
                  [Plot (map vx corners) (map vy corners) [] [(''color'', ''k'')],
                   SetTitle (Some ''Voronoi Diagram'')])
           (bindP (np_min (map vx corners)) (\<lambda>xmin.
              bindP (np_max (map vx corners)) (\<lambda>xmax.
                thenP (ax_call a (SetXLim xmin xmax))
                  (bindP (np_min (map vy corners)) (\<lambda>ymin.
                     bindP (np_max (map vy corners)) (\<lambda>ymax.
                       ax_calls a [SetYLim ymin ymax, SetAspect ''equal'' ''datalim''])))))))"

text \<open>The colorbar, when a colouring mode is given.\<close>

definition voronoi_colorbar ::
  "ref \<Rightarrow> string option \<Rightarrow> patch_collection \<Rightarrow> real list \<Rightarrow> unit prog" where
  "voronoi_colorbar a color_by patch_collection bnds =
     (case color_by of
        None \<Rightarrow> returnP ()
      | Some mode \<Rightarrow>
          bindP (append_axes a ''right'' ''7%'' ''10%'') (\<lambda>cax.
            thenP (ax_call cax (Colorbar (MPatches patch_collection)))
              (bindP (color_by_labels mode) (\<lambda>label.
                 ax_calls cax [ColorbarSetLabel label, ColorbarSetTicks bnds]))))"

definition voronoi_plot ::
  "(nat list \<Rightarrow> nat list) \<Rightarrow> voronoi_obj \<Rightarrow> box \<Rightarrow> ref option \<Rightarrow> string option \<Rightarrow> string option
     \<Rightarrow> ref prog" where
  "voronoi_plot permutation voronoi bx ax color_by cmap =
     bindP (default_axes ax False) (\<lambda>a.
       bindP (voronoi_patches permutation voronoi color_by cmap) (\<lambda>(patch_collection, bnds).
         thenP (ax_call a (AddCollection patch_collection))
           (thenP (voronoi_box a bx)
              (thenP (voronoi_colorbar a color_by patch_collection bnds)
                 (returnP a)))))"

subsection \<open>diffraction_plot\<close>

definition diffraction_plot ::
  "real list list \<Rightarrow> real list \<Rightarrow> int \<Rightarrow> ref option \<Rightarrow> string \<Rightarrow> real option \<Rightarrow> real option
     \<Rightarrow> ref prog" where
  "diffraction_plot diffraction k_values N_points ax cmap vmin_arg vmax_arg =
     (let vmin = (case vmin_arg of None \<Rightarrow> 4 / 1000000 * real_of_int N_points | Some v \<Rightarrow> v);
          vmax = (case vmax_arg of None \<Rightarrow> 0.7 * real_of_int N_points | Some v \<Rightarrow> v)
      in bindP (default_axes ax False) (\<lambda>a.
           let nrm = LogNorm vmin vmax
           in bindP (np_min k_values) (\<lambda>kmin. bindP (np_max k_values) (\<lambda>kmax.
                let im = \<lparr>im_data = map (map Fin) (np_clip diffraction vmin vmax),
                          im_extent = [kmin, kmax, kmin, kmax],
                          im_interpolation = Some ''nearest'', im_cmap = Some cmap,
                          im_vmin = None, im_vmax = None, im_norm = Some nrm\<rparr>
                in thenP (ax_call a (Imshow im))
                     (bindP (append_axes a ''right'' ''7%'' ''10%'') (\<lambda>cax.
                        thenP (ax_calls cax
                                 [Colorbar (MImage im), ColorbarSetLabel (''$S('' @ CHR 0x5C # ''vec{k})$'')])
                          (thenP (ax_calls a
                                    [XAxisSetMajorLocator 6 True 7, YAxisSetMajorLocator 6 True 7,
                                     XAxisSetMajorFormatter ''%.3g'',
                                     YAxisSetMajorFormatter ''%.3g'',
                                     SetTitle (Some ''Diffraction Pattern''),
                                     SetAspect ''equal'' ''datalim'',
                                     SetXLabel (Some ''$k_x$''), SetYLabel (Some ''$k_y$'')])
                             (returnP a))))))))"

subsection \<open>Raster export\<close>

text \<open>
  What a figure shows is what was drawn on its axes. \<open>encode\<close> is the library's
  rendering of that to the bytes of an image file of a given format. \<open>savefig\<close> writes
  them to a file when it is given a path, and into the buffer when it is given one; the
  bytes in the buffer afterwards are its result.
\<close>

datatype sink = Path string | Buffer

definition fig_content :: "world \<Rightarrow> ref \<Rightarrow> cmd list list" where
  "fig_content st f = map (drawn st) (fig_axes (figures st ! f))"

definition figure_canvas_agg :: "ref \<Rightarrow> unit prog" where
  "figure_canvas_agg f st =
     (if f < length (figures st)
      then (Inr (), st\<lparr>figures := (figures st)[f := (figures st ! f)\<lparr>fig_canvas := ''agg''\<rparr>]\<rparr>)
      else (Inl (AttributeError ''not a figure''), st))"

definition fig_savefig ::
  "(string \<Rightarrow> cmd list list \<Rightarrow> nat list) \<Rightarrow> ref \<Rightarrow> sink \<Rightarrow> string \<Rightarrow> nat list prog" where
  "fig_savefig encode f target fmt st =
     (if f < length (figures st)
      then (case target of
              Path name \<Rightarrow> (Inr [], st\<lparr>files := (name, encode fmt (fig_content st f)) # files st\<rparr>)
            | Buffer \<Rightarrow> (Inr (encode fmt (fig_content st f)), st))
      else (Inl (AttributeError ''not a figure''), st))"

definition fig_clf :: "ref \<Rightarrow> unit prog" where
  "fig_clf f st =
     (if f < length (figures st)
      then (Inr (), st\<lparr>figures := (figures st)[f := (figures st ! f)\<lparr>fig_axes := []\<rparr>]\<rparr>)
      else (Inl (AttributeError ''not a figure''), st))"

definition ax_figure_of :: "ref \<Rightarrow> ref prog" where
  "ax_figure_of a st =
     (case lookup_axes a st of
        None \<Rightarrow> (Inl (AttributeError ''not an axes object''), st)
      | Some obj \<Rightarrow> (Inr (ax_figure obj), st))"

definition ax_to_bytes :: "(string \<Rightarrow> cmd list list \<Rightarrow> nat list) \<Rightarrow> ref \<Rightarrow> nat list prog" where
  "ax_to_bytes encode ax =
     bindP (ax_figure_of ax) (\<lambda>fig.
       thenP (figure_canvas_agg fig)
         (bindP (fig_savefig encode fig Buffer ''png'') (\<lambda>f.
            thenP (fig_clf fig) (returnP f))))"

section \<open>Stores before and after a call\<close>

text \<open>The store in which \<open>cs\<close> has been recorded on the axes \<open>a\<close>.\<close>

definition record_calls :: "ref \<Rightarrow> cmd list \<Rightarrow> world \<Rightarrow> world" where
  "record_calls a cs st =
     st\<lparr>axes := (axes st)[a := (axes st ! a)\<lparr>ax_drawn := ax_drawn (axes st ! a) @ cs\<rparr>]\<rparr>"

text \<open>The \<open>ax\<close> argument of a helper is \<open>None\<close> or an axes object of the store.\<close>

definition live_or_none :: "ref option \<Rightarrow> world \<Rightarrow> bool" where
  "live_or_none ax st = (case ax of None \<Rightarrow> True | Some a \<Rightarrow> a < length (axes st))"

fun sets_lim3d :: "cmd \<Rightarrow> bool" where
  "sets_lim3d (SetXLim3d _ _) = True"
| "sets_lim3d (SetYLim3d _ _) = True"
| "sets_lim3d (SetZLim3d _ _) = True"
| "sets_lim3d _ = False"

text \<open>
  \<open>grows_by ok st st'\<close>: the store \<open>st'\<close> is \<open>st\<close> with objects added and with calls
  recorded after those already there, and every call recorded since \<open>st\<close> satisfies
  \<open>ok\<close>; the files are the same.
\<close>

definition grows_by :: "(cmd \<Rightarrow> bool) \<Rightarrow> world \<Rightarrow> world \<Rightarrow> bool" where
  "grows_by ok st st' \<longleftrightarrow>
     length (axes st) \<le> length (axes st')
   \<and> (\<forall>b<length (axes st).
        ax_figure (axes st' ! b) = ax_figure (axes st ! b)
      \<and> ax_is3d (axes st' ! b) = ax_is3d (axes st ! b)
      \<and> (\<exists>new. ax_drawn (axes st' ! b) = ax_drawn (axes st ! b) @ new \<and> (\<forall>c\<in>set new. ok c)))
   \<and> (\<forall>b<length (axes st'). length (axes st) \<le> b \<longrightarrow> (\<forall>c\<in>set (ax_drawn (axes st' ! b)). ok c))
   \<and> length (figures st) \<le> length (figures st')
   \<and> files st' = files st"

definition appends :: "(cmd \<Rightarrow> bool) \<Rightarrow> 'a prog \<Rightarrow> bool" where
  "appends ok m \<longleftrightarrow> (\<forall>st. grows_by ok st (snd (m st)))"

text \<open>Errors of the kind the module raises itself.\<close>

fun is_runtime_error :: "error \<Rightarrow> bool" where
  "is_runtime_error (RuntimeError _) = True"
| "is_runtime_error _ = False"

definition no_runtime_error :: "'a prog \<Rightarrow> bool" where
  "no_runtime_error m \<longleftrightarrow> (\<forall>st e st'. m st = (Inl e, st') \<longrightarrow> \<not> is_runtime_error e)"

text \<open>What a helper returns, given its \<open>ax\<close> argument: the axes passed in, which are
  axes of the store, or the axes created first; they are axes of the final store.\<close>

definition result_ok :: "ref option \<Rightarrow> world \<Rightarrow> ref \<Rightarrow> world \<Rightarrow> bool" where
  "result_ok ax st r st' \<longleftrightarrow>
     (case ax of None \<Rightarrow> r = length (axes st) | Some a \<Rightarrow> r = a \<and> a < length (axes st))
   \<and> r < length (axes st')"

definition same_or_new_axes :: "ref option \<Rightarrow> world \<Rightarrow> ref \<Rightarrow> world \<Rightarrow> bool" where
  "same_or_new_axes ax st r st' \<longleftrightarrow>
     (case ax of
        Some a \<Rightarrow> r = a \<and> (\<exists>new. drawn st' a = drawn st a @ new)
      | None \<Rightarrow> lookup_axes r st = None \<and> lookup_axes r st' \<noteq> None)"

definition returns_axes :: "ref option \<Rightarrow> ('a \<Rightarrow> ref) \<Rightarrow> 'a prog \<Rightarrow> bool" where
  "returns_axes ax proj m \<longleftrightarrow>
     (\<forall>st x st'. m st = (Inr x, st') \<longrightarrow> same_or_new_axes ax st (proj x) st')"

definition returns_live_axes :: "('a \<Rightarrow> ref) \<Rightarrow> 'a prog \<Rightarrow> bool" where
  "returns_live_axes proj m \<longleftrightarrow>
     (\<forall>st x st'. m st = (Inr x, st') \<longrightarrow> lookup_axes (proj x) st' \<noteq> None)"

text \<open>\<open>keeps sel m\<close>: the computation \<open>m\<close> leaves the part \<open>sel\<close> of the store as it is.\<close>

definition keeps :: "(world \<Rightarrow> 'b) \<Rightarrow> 'a prog \<Rightarrow> bool" where
  "keeps sel m \<longleftrightarrow> (\<forall>st. sel (snd (m st)) = sel st)"

text \<open>The rules by which these properties follow the structure of a computation.\<close>

named_theorems appends_intros

named_theorems nre_intros

named_theorems keeps_intros

subsection \<open>Sample inputs\<close>

definition world0 :: world where
  "world0 = \<lparr>axes = [], figures = [], arrays = [], files = [], warnings = []\<rparr>"

definition unit_box :: box where
  "unit_box = \<lparr>is2D = True, Lx = 1, Ly = 1,
               make_absolute = (\<lambda>(x, y, z). (x - 1 / 2, y - 1 / 2, 0))\<rparr>"

definition two_cells :: voronoi_obj where
  "two_cells =
     \<lparr>polytopes = [[(- 1 / 2, - 1 / 2, 0), (0, - 1 / 2, 0), (0, 1 / 2, 0), (- 1 / 2, 1 / 2, 0)],
                   [(0, - 1 / 2, 0), (1 / 2, - 1 / 2, 0), (1 / 2, 1 / 2, 0), (0, 1 / 2, 0)]],
      volumes = [1 / 2, 1 / 2]\<rparr>"

definition world1 :: world where
  "world1 = \<lparr>axes = [\<lparr>ax_figure = 0, ax_is3d = False, ax_drawn = [SetTitle (Some ''mine'')]\<rparr>],
              figures = [\<lparr>fig_axes = [0], fig_canvas = ''default''\<rparr>],
              arrays = [], files = [], warnings = []\<rparr>"


definition world_pmft :: world where
  "world_pmft = \<lparr>axes = [], figures = [], arrays = [[[Fin 1, PInf], [NInf, Fin 2]]],
                  files = [], warnings = []\<rparr>"

definition pmft0 :: pmft_obj where
  "pmft0 = \<lparr>pmft = 0, bounds = ((- 1, 1), (- 1, 1))\<rparr>"

definition sample_encode :: "string \<Rightarrow> cmd list list \<Rightarrow> nat list" where
  "sample_encode fmt content = map of_char fmt @ [length content]"

section \<open>Lemmas\<close>

subsection \<open>Sequencing\<close>

lemma returnP_eq [simp]: "returnP x st = (r, st') \<longleftrightarrow> r = Inr x \<and> st' = st"
  by (auto simp: returnP_def)

lemma raiseP_eq [simp]: "raiseP e st = (r, st') \<longleftrightarrow> r = Inl e \<and> st' = st"
  by (auto simp: raiseP_def)

lemma bindP_Inr:
  "bindP m f st = (Inr r, st') \<longleftrightarrow> (\<exists>x s1. m st = (Inr x, s1) \<and> f x s1 = (Inr r, st'))"
  by (auto simp: bindP_def split: prod.splits sum.splits)

lemma bindP_Inl:
  "bindP m f st = (Inl e, st') \<longleftrightarrow>
     m st = (Inl e, st') \<or> (\<exists>x s1. m st = (Inr x, s1) \<and> f x s1 = (Inl e, st'))"
  by (auto simp: bindP_def split: prod.splits sum.splits)

lemma bindP_ok: "m st = (Inr x, s1) \<Longrightarrow> bindP m f st = f x s1"
  by (simp add: bindP_def)

lemma thenP_ok: "m st = (Inr u, s1) \<Longrightarrow> thenP m n st = n s1"
  by (simp add: thenP_def bindP_def)

lemma record_calls_Nil: "a < length (axes st) \<Longrightarrow> record_calls a [] st = st"
  by (simp add: record_calls_def)

lemma record_calls_append:
  "a < length (axes st) \<Longrightarrow> record_calls a ds (record_calls a cs st) = record_calls a (cs @ ds) st"
  by (simp add: record_calls_def)

lemma axes_record_calls [simp]: "length (axes (record_calls a cs st)) = length (axes st)"
  by (simp add: record_calls_def)

lemma ax_call_ok:
  "a < length (axes st) \<Longrightarrow> needs3d c \<longrightarrow> ax_is3d (axes st ! a) \<Longrightarrow>
     ax_call a c st = (Inr (), record_calls a [c] st)"
  by (auto simp: ax_call_def lookup_axes_def record_calls_def)

lemma is3d_record_calls [simp]:
  "a < length (axes st) \<Longrightarrow> ax_is3d (axes (record_calls a cs st) ! a) = ax_is3d (axes st ! a)"
  by (simp add: record_calls_def)

lemma ax_calls_ok:
  "a < length (axes st) \<Longrightarrow> \<forall>c\<in>set cs. needs3d c \<longrightarrow> ax_is3d (axes st ! a) \<Longrightarrow>
     ax_calls a cs st = (Inr (), record_calls a cs st)"
proof (induction cs arbitrary: st)
  case Nil
  then show ?case by (simp add: record_calls_Nil)
next
  case (Cons c cs)
  have step: "ax_call a c st = (Inr (), record_calls a [c] st)"
    using Cons.prems by (simp add: ax_call_ok)
  have "ax_calls a cs (record_calls a [c] st) = (Inr (), record_calls a cs (record_calls a [c] st))"
    using Cons.prems by (intro Cons.IH) simp_all
  then show ?case
    using step Cons.prems(1) by (simp add: thenP_ok record_calls_append)
qed

lemma default_axes_None:
  "default_axes None is3d st =
     (Inr (length (axes st)),
      st\<lparr>axes := axes st @ [\<lparr>ax_figure = length (figures st), ax_is3d = is3d, ax_drawn = []\<rparr>],
         figures := figures st @ [\<lparr>fig_axes = [length (axes st)], fig_canvas = ''default''\<rparr>]\<rparr>)"
  by (simp add: default_axes_def bindP_def plt_figure_def fig_add_axes_def)

lemma default_axes_Some: "default_axes (Some a) is3d st = (Inr a, st)"
  by (simp add: default_axes_def)

lemma drawn_record_calls:
  "a < length (axes st) \<Longrightarrow> drawn (record_calls a cs st) a = drawn st a @ cs"
  by (simp add: drawn_def lookup_axes_def record_calls_def)

lemma default_axes_live:
  assumes "live_or_none ax st"
  obtains a s1 where "default_axes ax is3d st = (Inr a, s1)" "a < length (axes s1)"
    "drawn s1 a = drawn st a" "ax_is3d (axes s1 ! a) = (case ax of None \<Rightarrow> is3d | Some b \<Rightarrow> ax_is3d (axes st ! b))"
    "case ax of None \<Rightarrow> a = length (axes st) | Some b \<Rightarrow> a = b"
proof (cases ax)
  case None
  show ?thesis
    by (rule that[of "length (axes st)"], subst None, rule default_axes_None)
       (simp_all add: None drawn_def lookup_axes_def)
next
  case (Some b)
  show ?thesis
    by (rule that[of b st]) (use assms Some in \<open>simp_all add: default_axes_Some live_or_none_def\<close>)
qed

lemma bar_plot_effect:
  assumes "live_or_none ax st"
  shows "\<exists>a st'. bar_plot x height title xlabel ylabel ax st = (Inr a, st')
           \<and> (case ax of None \<Rightarrow> a = length (axes st) | Some b \<Rightarrow> a = b)
           \<and> a < length (axes st')
           \<and> drawn st' a = drawn st a @ [Bar x height, SetTitle title, SetXLabel xlabel,
                 SetYLabel ylabel, SetXTicks x, SetXTickLabels x]"
proof -
  obtain a s1 where d: "default_axes ax False st = (Inr a, s1)" "a < length (axes s1)"
    "drawn s1 a = drawn st a" "case ax of None \<Rightarrow> a = length (axes st) | Some b \<Rightarrow> a = b"
    using default_axes_live[OF assms] by metis
  let ?cs = "[Bar x height, SetTitle title, SetXLabel xlabel, SetYLabel ylabel, SetXTicks x, SetXTickLabels x]"
  have c: "ax_calls a ?cs s1 = (Inr (), record_calls a ?cs s1)"
    using d(2) by (intro ax_calls_ok) simp_all
  have "bar_plot x height title xlabel ylabel ax st = (Inr a, record_calls a ?cs s1)"
    unfolding bar_plot_def by (simp add: bindP_def thenP_def d(1) c del: ax_calls.simps)
  then show ?thesis
    using d by (auto simp: drawn_record_calls)
qed

lemma sorted_desc:
  fixes cs :: "(real \<times> 'k) list"
  assumes "sorted (map (\<lambda>x. - fst x) cs)"
  shows "sorted_wrt (\<lambda>p q. fst q \<le> fst p) cs"
  using assms by (simp add: sorted_map)

subsection \<open>Stores only grow\<close>

lemma grows_by_refl: "grows_by ok st st"
  by (simp add: grows_by_def)

lemma grows_by_old:
  "grows_by ok st st' \<Longrightarrow> b < length (axes st) \<Longrightarrow>
     \<exists>new. ax_drawn (axes st' ! b) = ax_drawn (axes st ! b) @ new \<and> (\<forall>c\<in>set new. ok c)"
  by (simp add: grows_by_def)

lemma grows_by_same:
  "grows_by ok st st' \<Longrightarrow> b < length (axes st) \<Longrightarrow>
     ax_figure (axes st' ! b) = ax_figure (axes st ! b) \<and> ax_is3d (axes st' ! b) = ax_is3d (axes st ! b)"
  by (simp add: grows_by_def)

lemma grows_by_new:
  "grows_by ok st st' \<Longrightarrow> b < length (axes st') \<Longrightarrow> length (axes st) \<le> b \<Longrightarrow>
     \<forall>c\<in>set (ax_drawn (axes st' ! b)). ok c"
  by (simp add: grows_by_def)

lemma grows_by_length:
  "grows_by ok st st' \<Longrightarrow> length (axes st) \<le> length (axes st')"
  by (simp add: grows_by_def)

lemma grows_by_trans:
  assumes "grows_by ok s1 s2" "grows_by ok s2 s3"
  shows "grows_by ok s1 s3"
proof -
  have len: "length (axes s1) \<le> length (axes s2)" "length (axes s2) \<le> length (axes s3)"
    using assms by (simp_all add: grows_by_def)
  have old: "ax_figure (axes s3 ! b) = ax_figure (axes s1 ! b)
      \<and> ax_is3d (axes s3 ! b) = ax_is3d (axes s1 ! b)
      \<and> (\<exists>new. ax_drawn (axes s3 ! b) = ax_drawn (axes s1 ! b) @ new \<and> (\<forall>c\<in>set new. ok c))"
    if bl: "b < length (axes s1)" for b
  proof -
    have b2: "b < length (axes s2)" using bl len by simp
    obtain n1 where n1: "ax_drawn (axes s2 ! b) = ax_drawn (axes s1 ! b) @ n1" "\<forall>c\<in>set n1. ok c"
      using grows_by_old[OF assms(1) bl] by blast
    obtain n2 where n2: "ax_drawn (axes s3 ! b) = ax_drawn (axes s2 ! b) @ n2" "\<forall>c\<in>set n2. ok c"
      using grows_by_old[OF assms(2) b2] by blast
    have "ax_drawn (axes s3 ! b) = ax_drawn (axes s1 ! b) @ (n1 @ n2)" "\<forall>c\<in>set (n1 @ n2). ok c"
      using n1 n2 by auto
    moreover have "ax_figure (axes s3 ! b) = ax_figure (axes s1 ! b)"
      "ax_is3d (axes s3 ! b) = ax_is3d (axes s1 ! b)"
      using grows_by_same[OF assms(1) bl] grows_by_same[OF assms(2) b2] by auto
    ultimately show ?thesis by blast
  qed
  have new: "\<forall>c\<in>set (ax_drawn (axes s3 ! b)). ok c"
    if b3: "b < length (axes s3)" and b1: "length (axes s1) \<le> b" for b
  proof (cases "b < length (axes s2)")
    case True
    then have a: "\<forall>c\<in>set (ax_drawn (axes s2 ! b)). ok c"
      using grows_by_new[OF assms(1) True b1] by blast
    obtain n2 where n2: "ax_drawn (axes s3 ! b) = ax_drawn (axes s2 ! b) @ n2" "\<forall>c\<in>set n2. ok c"
      using grows_by_old[OF assms(2) True] by blast
    show ?thesis using a n2 by auto
  next
    case False
    then show ?thesis
      using grows_by_new[OF assms(2) b3] by simp
  qed
  have "length (figures s1) \<le> length (figures s3)" "files s3 = files s1"
    using assms by (simp_all add: grows_by_def)
  then show ?thesis
    unfolding grows_by_def using len old new by auto
qed

lemma appends_returnP [appends_intros]: "appends ok (returnP x)"
  by (simp add: appends_def returnP_def grows_by_refl)

lemma appends_raiseP [appends_intros]: "appends ok (raiseP e)"
  by (simp add: appends_def raiseP_def grows_by_refl)

lemma appends_bindP [appends_intros]:
  assumes "appends ok m" "\<And>x. appends ok (f x)"
  shows "appends ok (bindP m f)"
  unfolding appends_def
proof
  fix st
  show "grows_by ok st (snd (bindP m f st))"
  proof (cases "m st")
    case (Pair r s1)
    have g1: "grows_by ok st s1"
      using assms(1) Pair unfolding appends_def by (metis snd_conv)
    show ?thesis
    proof (cases r)
      case (Inl e)
      then show ?thesis using Pair g1 by (simp add: bindP_def)
    next
      case (Inr x)
      have "grows_by ok s1 (snd (f x s1))"
        using assms(2) unfolding appends_def by blast
      then show ?thesis
        using Pair Inr g1 by (auto simp: bindP_def intro: grows_by_trans)
    qed
  qed
qed

lemma appends_thenP [appends_intros]:
  "appends ok m \<Longrightarrow> appends ok n \<Longrightarrow> appends ok (thenP m n)"
  unfolding thenP_def by (rule appends_bindP)

lemma appends_if [appends_intros]:
  "(c \<Longrightarrow> appends ok m) \<Longrightarrow> (\<not> c \<Longrightarrow> appends ok n) \<Longrightarrow> appends ok (if c then m else n)"
  by simp

lemma appends_case_option [appends_intros]:
  "appends ok n \<Longrightarrow> (\<And>x. appends ok (s x)) \<Longrightarrow> appends ok (case_option n s v)"
  by (cases v) simp_all

lemma appends_case_prod [appends_intros]:
  "(\<And>a b. appends ok (f a b)) \<Longrightarrow> appends ok (case_prod f p)"
  by (cases p) simp

lemma appends_case_list [appends_intros]:
  "appends ok n \<Longrightarrow> (\<And>x xs. appends ok (s x xs)) \<Longrightarrow> appends ok (case_list n s v)"
  by (cases v) simp_all

lemma appends_Let [appends_intros]:
  "appends ok (f x) \<Longrightarrow> appends ok (Let x f)"
  by simp

lemma appends_ax_call [appends_intros]: "ok c \<Longrightarrow> appends ok (ax_call a c)"
  unfolding appends_def
proof
  fix st
  assume ok: "ok c"
  show "grows_by ok st (snd (ax_call a c st))"
  proof (cases "a < length (axes st) \<and> (needs3d c \<longrightarrow> ax_is3d (axes st ! a))")
    case True
    then have "ax_call a c st = (Inr (), record_calls a [c] st)"
      by (simp add: ax_call_ok)
    moreover have "grows_by ok st (record_calls a [c] st)"
      using ok True by (auto simp: grows_by_def record_calls_def nth_list_update)
    ultimately show ?thesis by simp
  next
    case False
    then have "snd (ax_call a c st) = st"
      by (auto simp: ax_call_def lookup_axes_def)
    then show ?thesis by (simp add: grows_by_refl)
  qed
qed

lemma appends_ax_calls [appends_intros]: "\<forall>c\<in>set cs. ok c \<Longrightarrow> appends ok (ax_calls a cs)"
  by (induction cs) (auto intro: appends_intros)

lemma appends_plt_figure [appends_intros]: "appends ok plt_figure"
  by (simp add: appends_def plt_figure_def grows_by_def)

lemma appends_fig_add_axes [appends_intros]: "appends ok (fig_add_axes f b)"
  by (auto simp: appends_def fig_add_axes_def grows_by_def nth_append less_Suc_eq)

lemma appends_default_axes [appends_intros]: "appends ok (default_axes ax b)"
  unfolding default_axes_def by (intro appends_intros)

lemma appends_append_axes [appends_intros]:
  assumes "\<And>r. ok (AppendAxes position sz pad r)"
  shows "appends ok (append_axes a position sz pad)"
proof -
  have "appends ok (bindP (fig_add_axes f False)
            (\<lambda>cax. thenP (ax_call a (AppendAxes position sz pad cax)) (returnP cax)))" for f
    by (intro appends_intros assms)
  then show ?thesis
    unfolding appends_def append_axes_def
    by (auto simp: grows_by_refl split: option.splits)
qed

lemma snd_unchanged_appends: "(\<And>st. snd (m st) = st) \<Longrightarrow> appends ok m"
  by (simp add: appends_def grows_by_refl)

lemma appends_np_min [appends_intros]: "appends ok (np_min xs)"
  unfolding np_min_def by (intro appends_intros)

lemma appends_np_max [appends_intros]: "appends ok (np_max xs)"
  unfolding np_max_def by (intro appends_intros)

lemma appends_np_ptp [appends_intros]: "appends ok (np_ptp xs)"
  unfolding np_ptp_def by (intro appends_intros)

lemma appends_first [appends_intros]: "appends ok (first xs)"
  unfolding first_def by (intro appends_intros)

lemma appends_final [appends_intros]: "appends ok (final xs)"
  unfolding final_def by (intro appends_intros)

lemma appends_read_array [appends_intros]: "appends ok (read_array r)"
  by (rule snd_unchanged_appends) (simp add: read_array_def)

lemma appends_np_copy [appends_intros]: "appends ok (np_copy r)"
  by (simp add: appends_def np_copy_def grows_by_def)

lemma appends_set_inf_to_nan [appends_intros]: "appends ok (set_inf_to_nan r)"
  by (simp add: appends_def set_inf_to_nan_def grows_by_def)

lemma appends_warn [appends_intros]: "appends ok (warn msg)"
  by (simp add: appends_def warn_def grows_by_def)

lemma appends_num_le [appends_intros]: "appends ok (num_le n k)"
  unfolding num_le_def by (intro appends_intros)

lemma appends_num_gt [appends_intros]: "appends ok (num_gt n k)"
  unfolding num_gt_def by (intro appends_intros)

lemma appends_color_by_labels [appends_intros]: "appends ok (color_by_labels k)"
  unfolding color_by_labels_def by (intro appends_intros)

lemma appends_cell_colors [appends_intros]: "appends ok (cell_colors p v ps cb)"
  unfolding cell_colors_def by (intro appends_intros)

lemma appends_choose_cmap [appends_intros]: "appends ok (choose_cmap cm cb n)"
  unfolding choose_cmap_def by (intro appends_intros)

lemma appends_points_min [appends_intros]: "appends ok (points_min ps)"
  unfolding points_min_def by (intro appends_intros)

lemma appends_points_max [appends_intros]: "appends ok (points_max ps)"
  unfolding points_max_def by (intro appends_intros)

lemma appends_get_lims3d [appends_intros]: "appends ok (get_lims3d a)"
  by (rule snd_unchanged_appends) (simp add: get_lims3d_def split: option.splits)

lemma appends_plot_paths [appends_intros]: "(\<And>x y z k. ok (Plot3D x y z k)) \<Longrightarrow> appends ok (plot_paths a ps kw)"
  by (induction ps arbitrary: kw) (auto intro!: appends_intros split: prod.splits)

lemma appends_bar_plot: "ok (Bar x h) \<Longrightarrow> ok (SetTitle t) \<Longrightarrow> ok (SetXLabel xl) \<Longrightarrow> ok (SetYLabel yl) \<Longrightarrow> ok (SetXTicks x) \<Longrightarrow> ok (SetXTickLabels x) \<Longrightarrow> appends ok (bar_plot x h t xl yl ax)"
  unfolding bar_plot_def by (intro appends_intros) simp

lemma appends_line_plot: "appends (\<lambda>c. \<not> sets_lim3d c) (line_plot x y t xl yl ax)"
  unfolding line_plot_def by (intro appends_intros) simp

lemma appends_histogram_plot: "appends (\<lambda>c. \<not> sets_lim3d c) (histogram_plot v t xl yl ax ll)"
  unfolding histogram_plot_def by (intro appends_intros) simp_all

lemma appends_pmft_plot: "appends (\<lambda>c. \<not> sets_lim3d c) (pmft_plot p ax cm)"
  unfolding pmft_plot_def pmft_draw_def by (intro appends_intros) simp_all

lemma appends_density_plot: "appends (\<lambda>c. \<not> sets_lim3d c) (density_plot d bx ax)"
  unfolding density_plot_def by (intro appends_intros) simp_all

lemma appends_diffraction_plot: "appends (\<lambda>c. \<not> sets_lim3d c) (diffraction_plot d k n ax cm v1 v2)"
  unfolding diffraction_plot_def by (intro appends_intros) simp_all

lemma appends_voronoi_plot: "appends (\<lambda>c. \<not> sets_lim3d c) (voronoi_plot p v bx ax cb cm)"
  unfolding voronoi_plot_def voronoi_patches_def voronoi_box_def voronoi_colorbar_def
  by (intro appends_intros) simp_all

lemma appends_set_3d_axes_equal: "appends (\<lambda>c. True) (set_3d_axes_equal a l)"
  unfolding set_3d_axes_equal_def case_prod_beta' by (intro appends_intros) simp_all

lemma appends_box_plot: "appends (\<lambda>c. True) (box_plot bx t ax img args kw)"
  unfolding box_plot_def by (intro appends_intros appends_set_3d_axes_equal) simp_all


lemma appends_system_plot: "appends (\<lambda>c. True) (system_plot sys t ax args kw)"
  unfolding system_plot_def by (intro appends_intros appends_set_3d_axes_equal appends_box_plot) simp_all


subsection \<open>What a successful call returns\<close>

lemma thenP_Inr:
  "thenP m n st = (Inr r, st') \<longleftrightarrow> (\<exists>s1. m st = (Inr (), s1) \<and> n s1 = (Inr r, st'))"
  by (auto simp: thenP_def bindP_Inr)

lemma ax_call_D:
  "ax_call a c st = (Inr u, st') \<Longrightarrow> a < length (axes st) \<and> length (axes st') = length (axes st)"
  by (auto simp: ax_call_def lookup_axes_def split: if_splits)

lemma ax_calls_D:
  "ax_calls a cs st = (Inr u, st') \<Longrightarrow>
     (cs \<noteq> [] \<longrightarrow> a < length (axes st)) \<and> length (axes st') = length (axes st)"
proof (induction cs arbitrary: st)
  case Nil
  then show ?case by simp
next
  case (Cons c cs)
  then obtain s1 where 1: "ax_call a c st = (Inr (), s1)" and 2: "ax_calls a cs s1 = (Inr u, st')"
    by (auto simp: thenP_Inr)
  show ?case using ax_call_D[OF 1] Cons.IH[OF 2] by simp
qed

lemma plot_paths_D:
  "plot_paths a ps kw st = (Inr u, st') \<Longrightarrow>
     (ps \<noteq> [] \<longrightarrow> a < length (axes st)) \<and> length (axes st') = length (axes st)"
proof (induction ps arbitrary: st kw)
  case Nil
  then show ?case by simp
next
  case (Cons p ps)
  obtain color kw' where k: "kwargs_pop ''color'' ''k'' kw = (color, kw')"
    by (cases "kwargs_pop ''color'' ''k'' kw")
  from Cons.prems obtain s1 where
    1: "ax_call a (Plot3D (map vx p) (map vy p) (map vz p) [(''color'', color)]) st = (Inr (), s1)"
    and 2: "plot_paths a ps kw' s1 = (Inr u, st')"
    by (auto simp: thenP_Inr k)
  show ?case using ax_call_D[OF 1] Cons.IH[OF 2] by simp
qed

lemma default_axes_D:
  "default_axes ax b st = (Inr a, s1) \<Longrightarrow>
     (case ax of None \<Rightarrow> a = length (axes st) \<and> length (axes s1) = Suc (length (axes st))
      | Some x \<Rightarrow> a = x \<and> s1 = st)"
  by (cases ax) (auto simp: default_axes_None default_axes_Some)

lemma append_axes_D:
  "append_axes a p s d st = (Inr r, st') \<Longrightarrow>
     a < length (axes st) \<and> r < length (axes st') \<and> length (axes st') = Suc (length (axes st))"
  by (auto simp: append_axes_def lookup_axes_def bindP_Inr thenP_Inr fig_add_axes_def
           dest!: ax_call_D split: option.splits if_splits)

lemma np_min_D: "np_min xs st = (Inr r, st') \<Longrightarrow> st' = st"
  by (auto simp: np_min_def split: list.splits)

lemma np_max_D: "np_max xs st = (Inr r, st') \<Longrightarrow> st' = st"
  by (auto simp: np_max_def split: list.splits)

lemma points_min_D: "points_min ps st = (Inr r, st') \<Longrightarrow> st' = st"
  by (auto simp: points_min_def bindP_Inr dest!: np_min_D)

lemma points_max_D: "points_max ps st = (Inr r, st') \<Longrightarrow> st' = st"
  by (auto simp: points_max_def bindP_Inr dest!: np_max_D)

lemma np_copy_D: "np_copy r st = (Inr x, st') \<Longrightarrow> axes st' = axes st"
  by (auto simp: np_copy_def split: if_splits)

lemma set_inf_to_nan_D: "set_inf_to_nan r st = (Inr x, st') \<Longrightarrow> axes st' = axes st"
  by (auto simp: set_inf_to_nan_def split: if_splits)

lemma read_array_D: "read_array r st = (Inr x, st') \<Longrightarrow> st' = st"
  by (auto simp: read_array_def split: if_splits)

lemma set_3d_axes_equal_D:
  "set_3d_axes_equal a l st = (Inr r, st') \<Longrightarrow>
     r = a \<and> a < length (axes st) \<and> length (axes st') = length (axes st)"
  by (auto simp: set_3d_axes_equal_def bindP_Inr thenP_Inr Let_def get_lims3d_def lookup_axes_def
           split: option.splits prod.splits if_splits dest!: ax_call_D)

lemma bar_plot_result:
  "bar_plot x h t xl yl ax st = (Inr r, st') \<Longrightarrow> result_ok ax st r st'"
  by (auto simp: bar_plot_def result_ok_def bindP_Inr thenP_Inr
           simp del: ax_calls.simps plot_paths.simps
           dest!: ax_call_D ax_calls_D default_axes_D split: option.splits)

lemma clusters_plot_result:
  "clusters_plot ks fs n ax st = (Inr r, st') \<Longrightarrow> result_ok ax st r st'"
  unfolding clusters_plot_def Let_def by (rule bar_plot_result)

lemma line_plot_result:
  "line_plot x y t xl yl ax st = (Inr r, st') \<Longrightarrow> result_ok ax st r st'"
  by (auto simp: line_plot_def result_ok_def bindP_Inr thenP_Inr
           simp del: ax_calls.simps plot_paths.simps
           dest!: ax_call_D ax_calls_D default_axes_D split: option.splits)

lemma histogram_plot_result:
  "histogram_plot v t xl yl ax ll st = (Inr r, st') \<Longrightarrow> result_ok ax st r st'"
  by (auto simp: histogram_plot_def result_ok_def bindP_Inr thenP_Inr
           simp del: ax_calls.simps plot_paths.simps
           dest!: ax_call_D ax_calls_D default_axes_D split: option.splits)

lemma box_plot_result:
  "box_plot bx t ax img args kw st = (Inr r, st') \<Longrightarrow> result_ok ax st r st'"
  by (auto simp: box_plot_def result_ok_def bindP_Inr thenP_Inr Let_def
           simp del: ax_calls.simps plot_paths.simps
           dest!: ax_call_D ax_calls_D default_axes_D plot_paths_D set_3d_axes_equal_D
           split: option.splits prod.splits if_splits)

lemma system_plot_result:
  "system_plot sys t ax args kw st = (Inr (r, sc), st') \<Longrightarrow> result_ok ax st r st'"
  by (auto simp: system_plot_def result_ok_def bindP_Inr thenP_Inr Let_def
           simp del: ax_calls.simps plot_paths.simps
           dest!: ax_call_D ax_calls_D default_axes_D box_plot_result set_3d_axes_equal_D points_min_D points_max_D
           split: option.splits prod.splits if_splits)

lemma pmft_plot_result:
  assumes "pmft_plot p ax cm st = (Inr r, st')"
  shows "result_ok ax st r st'"
proof -
  obtain xl0 xl1 yl0 yl1 where b: "bounds p = ((xl0, xl1), (yl0, yl1))"
    by (metis prod.exhaust)
  show ?thesis
    using assms
    by (auto simp: pmft_plot_def pmft_draw_def b result_ok_def bindP_Inr thenP_Inr Let_def
           simp del: ax_calls.simps plot_paths.simps
           dest!: ax_call_D ax_calls_D default_axes_D append_axes_D np_copy_D set_inf_to_nan_D read_array_D
           split: option.splits)
qed

lemma density_plot_result:
  "density_plot d bx ax st = (Inr r, st') \<Longrightarrow> result_ok ax st r st'"
  by (auto simp: density_plot_def result_ok_def bindP_Inr thenP_Inr Let_def
           simp del: ax_calls.simps plot_paths.simps
           dest!: ax_call_D ax_calls_D default_axes_D append_axes_D
           split: option.splits prod.splits if_splits)

lemma diffraction_plot_result:
  "diffraction_plot d k n ax cm v1 v2 st = (Inr r, st') \<Longrightarrow> result_ok ax st r st'"
  by (auto simp: diffraction_plot_def result_ok_def bindP_Inr thenP_Inr Let_def
           simp del: ax_calls.simps plot_paths.simps
           dest!: ax_call_D ax_calls_D default_axes_D append_axes_D np_min_D np_max_D
           split: option.splits prod.splits if_splits)

lemma appends_D: "appends ok m \<Longrightarrow> m st = (r, st') \<Longrightarrow> grows_by ok st st'"
  unfolding appends_def by (metis snd_conv)

lemma np_ptp_D: "np_ptp xs st = (Inr r, st') \<Longrightarrow> st' = st"
  by (auto simp: np_ptp_def split: list.splits)

lemma first_D: "first xs st = (Inr r, st') \<Longrightarrow> st' = st"
  by (auto simp: first_def split: list.splits)

lemma final_D: "final xs st = (Inr r, st') \<Longrightarrow> st' = st"
  by (auto simp: final_def split: if_splits)

lemma num_le_D: "num_le n k st = (Inr r, st') \<Longrightarrow> st' = st"
  by (auto simp: num_le_def split: option.splits)

lemma num_gt_D: "num_gt n k st = (Inr r, st') \<Longrightarrow> st' = st"
  by (auto simp: num_gt_def split: option.splits)

lemma warn_D: "warn msg st = (Inr r, st') \<Longrightarrow> axes st' = axes st"
  by (auto simp: warn_def)

lemma cell_colors_D: "cell_colors p v ps cb st = (Inr r, st') \<Longrightarrow> st' = st"
  by (auto simp: cell_colors_def bindP_Inr Let_def dest!: np_ptp_D split: if_splits)

lemma choose_cmap_D: "choose_cmap cm cb n st = (Inr r, st') \<Longrightarrow> axes st' = axes st"
  by (auto simp: choose_cmap_def bindP_Inr thenP_Inr dest!: num_le_D num_gt_D warn_D split: if_splits)

lemma voronoi_patches_D:
  "voronoi_patches p v cb cm st = (Inr r, st') \<Longrightarrow> axes st' = axes st"
  unfolding voronoi_patches_def Let_def
  by (auto simp: bindP_Inr dest!: cell_colors_D choose_cmap_D np_min_D np_max_D first_D final_D)

lemma voronoi_plot_result:
  "voronoi_plot p v bx ax cb cm st = (Inr r, st') \<Longrightarrow> result_ok ax st r st'"
proof -
  assume a: "voronoi_plot p v bx ax cb cm st = (Inr r, st')"
  then obtain a0 s1 pc bnds s2 s3 where
    1: "default_axes ax False st = (Inr a0, s1)"
    and 2: "voronoi_patches p v cb cm s1 = (Inr (pc, bnds), s2)"
    and 3: "ax_call a0 (AddCollection pc) s2 = (Inr (), s3)"
    and 4: "thenP (voronoi_box a0 bx) (thenP (voronoi_colorbar a0 cb pc bnds) (returnP a0)) s3 = (Inr r, st')"
    unfolding voronoi_plot_def by (auto simp: bindP_Inr thenP_Inr)
  have r: "r = a0"
    using 4 by (auto simp: thenP_Inr)
  have "appends (\<lambda>_. True) (thenP (voronoi_box a0 bx) (thenP (voronoi_colorbar a0 cb pc bnds) (returnP a0)))"
    unfolding voronoi_box_def voronoi_colorbar_def by (intro appends_intros) simp_all
  then have "length (axes s3) \<le> length (axes st')"
    using 4 appends_D grows_by_length by blast
  then show ?thesis
    using default_axes_D[OF 1] voronoi_patches_D[OF 2] ax_call_D[OF 3] r
    by (auto simp: result_ok_def split: option.splits)
qed

lemma result_ok_same_or_new:
  assumes "result_ok ax st r st'" "grows_by ok st st'"
  shows "same_or_new_axes ax st r st'"
proof (cases ax)
  case None
  then show ?thesis
    using assms(1) by (simp add: result_ok_def same_or_new_axes_def lookup_axes_def)
next
  case (Some a)
  then have a: "r = a" "a < length (axes st)" "a < length (axes st')"
    using assms(1) by (simp_all add: result_ok_def)
  obtain new where "ax_drawn (axes st' ! a) = ax_drawn (axes st ! a) @ new"
    using grows_by_old[OF assms(2) a(2)] by blast
  then show ?thesis
    using Some a by (simp add: same_or_new_axes_def drawn_def lookup_axes_def)
qed

lemma result_ok_live: "result_ok ax st r st' \<Longrightarrow> lookup_axes r st' \<noteq> None"
  by (simp add: result_ok_def lookup_axes_def)

subsection \<open>Errors of voronoi_plot\<close>

lemma nre_returnP [nre_intros]: "no_runtime_error (returnP x)"
  by (simp add: no_runtime_error_def)

lemma nre_raiseP [nre_intros]: "\<not> is_runtime_error e \<Longrightarrow> no_runtime_error (raiseP e)"
  by (simp add: no_runtime_error_def)

lemma nre_bindP [nre_intros]:
  "no_runtime_error m \<Longrightarrow> (\<And>x. no_runtime_error (f x)) \<Longrightarrow> no_runtime_error (bindP m f)"
  unfolding no_runtime_error_def bindP_Inl by blast

lemma nre_thenP [nre_intros]:
  "no_runtime_error m \<Longrightarrow> no_runtime_error n \<Longrightarrow> no_runtime_error (thenP m n)"
  unfolding thenP_def by (rule nre_bindP)

lemma nre_if [nre_intros]:
  "(c \<Longrightarrow> no_runtime_error m) \<Longrightarrow> (\<not> c \<Longrightarrow> no_runtime_error n) \<Longrightarrow>
     no_runtime_error (if c then m else n)"
  by simp

lemma nre_case_option [nre_intros]:
  "(v = None \<Longrightarrow> no_runtime_error n) \<Longrightarrow> (\<And>x. v = Some x \<Longrightarrow> no_runtime_error (s x)) \<Longrightarrow>
     no_runtime_error (case_option n s v)"
  by (cases v) simp_all

lemma nre_case_prod [nre_intros]:
  "(\<And>a b. no_runtime_error (f a b)) \<Longrightarrow> no_runtime_error (case_prod f p)"
  by (cases p) simp

lemma nre_case_list [nre_intros]:
  "no_runtime_error n \<Longrightarrow> (\<And>x xs. no_runtime_error (s x xs)) \<Longrightarrow>
     no_runtime_error (case_list n s v)"
  by (cases v) simp_all

lemma nre_Let [nre_intros]: "no_runtime_error (f x) \<Longrightarrow> no_runtime_error (Let x f)"
  by simp

lemma nre_ax_call [nre_intros]: "no_runtime_error (ax_call a c)"
  by (auto simp: no_runtime_error_def ax_call_def split: option.splits if_splits)

lemma nre_ax_calls [nre_intros]: "no_runtime_error (ax_calls a cs)"
  by (induction cs) (auto intro: nre_intros)

lemma nre_plt_figure [nre_intros]: "no_runtime_error plt_figure"
  by (simp add: no_runtime_error_def plt_figure_def)

lemma nre_fig_add_axes [nre_intros]: "no_runtime_error (fig_add_axes f b)"
  by (auto simp: no_runtime_error_def fig_add_axes_def split: if_splits)

lemma nre_default_axes [nre_intros]: "no_runtime_error (default_axes ax b)"
  unfolding default_axes_def by (intro nre_intros)

lemma nre_append_axes [nre_intros]: "no_runtime_error (append_axes a p s d)"
proof -
  have "no_runtime_error (bindP (fig_add_axes f False)
            (\<lambda>cax. thenP (ax_call a (AppendAxes p s d cax)) (returnP cax)))" for f
    by (intro nre_intros)
  then show ?thesis
    unfolding no_runtime_error_def append_axes_def
    by (auto split: option.splits)
qed

lemma nre_np_min [nre_intros]: "no_runtime_error (np_min xs)"
  unfolding np_min_def by (intro nre_intros) simp

lemma nre_np_max [nre_intros]: "no_runtime_error (np_max xs)"
  unfolding np_max_def by (intro nre_intros) simp

lemma nre_np_ptp [nre_intros]: "no_runtime_error (np_ptp xs)"
  unfolding np_ptp_def by (intro nre_intros) simp

lemma nre_first [nre_intros]: "no_runtime_error (first xs)"
  unfolding first_def by (intro nre_intros) simp

lemma nre_final [nre_intros]: "no_runtime_error (final xs)"
  unfolding final_def by (intro nre_intros) simp

lemma nre_warn [nre_intros]: "no_runtime_error (warn msg)"
  by (simp add: no_runtime_error_def warn_def)

lemma nre_num_le [nre_intros]: "no_runtime_error (num_le n k)"
  unfolding num_le_def by (intro nre_intros) simp

lemma nre_num_gt [nre_intros]: "no_runtime_error (num_gt n k)"
  unfolding num_gt_def by (intro nre_intros) simp

lemma nre_color_by_labels [nre_intros]: "no_runtime_error (color_by_labels k)"
  unfolding color_by_labels_def by (intro nre_intros) simp

lemma nre_choose_cmap [nre_intros]: "no_runtime_error (choose_cmap cm cb n)"
  unfolding choose_cmap_def by (intro nre_intros)

lemma nre_cell_colors:
  "cb \<in> {None, Some ''sides'', Some ''area''} \<Longrightarrow> no_runtime_error (cell_colors p v ps cb)"
  unfolding cell_colors_def by (intro nre_intros) auto

lemma nre_voronoi_plot:
  "cb \<in> {None, Some ''sides'', Some ''area''} \<Longrightarrow> no_runtime_error (voronoi_plot p v bx ax cb cm)"
  unfolding voronoi_plot_def voronoi_patches_def voronoi_box_def voronoi_colorbar_def
  by (intro nre_intros nre_cell_colors)

lemma default_axes_total:
  "\<exists>a s1. default_axes ax b st = (Inr a, s1) \<and> (ax \<noteq> None \<longrightarrow> s1 = st)"
  by (cases ax) (simp_all add: default_axes_None default_axes_Some)

lemma cell_colors_invalid:
  "cb \<notin> {None, Some ''sides'', Some ''area''} \<Longrightarrow>
     cell_colors p v ps cb st = (Inl (RuntimeError (''Invalid color_by option '' @ the cb @ ''.'')), st)"
  by (auto simp: cell_colors_def)

lemma voronoi_plot_invalid:
  assumes "cb \<notin> {None, Some ''sides'', Some ''area''}"
  shows "\<exists>s1. voronoi_plot p v bx ax cb cm st =
           (Inl (RuntimeError (''Invalid color_by option '' @ the cb @ ''.'')), s1)
         \<and> (ax \<noteq> None \<longrightarrow> s1 = st)"
proof -
  obtain a s1 where d: "default_axes ax False st = (Inr a, s1)" and s: "ax \<noteq> None \<longrightarrow> s1 = st"
    using default_axes_total by blast
  have "voronoi_patches p v cb cm s =
          (Inl (RuntimeError (''Invalid color_by option '' @ the cb @ ''.'')), s)" for s
    unfolding voronoi_patches_def Let_def
    by (simp add: bindP_def cell_colors_invalid[OF assms])
  then have "voronoi_plot p v bx ax cb cm st =
           (Inl (RuntimeError (''Invalid color_by option '' @ the cb @ ''.'')), s1)"
    unfolding voronoi_plot_def by (simp add: bindP_def d)
  then show ?thesis using s by blast
qed

subsection \<open>What is drawn\<close>

lemma ax_call_Inr:
  "ax_call a c st = (Inr u, st') \<Longrightarrow> a < length (axes st) \<and> st' = record_calls a [c] st"
  by (auto simp: ax_call_def lookup_axes_def record_calls_def split: if_splits)

lemma default_axes_drawn: "default_axes ax b st = (Inr a, s1) \<Longrightarrow> drawn s1 a = drawn st a"
  by (cases ax) (auto simp: default_axes_None default_axes_Some drawn_def lookup_axes_def)

lemma grows_by_drawn:
  "grows_by ok st st' \<Longrightarrow> a < length (axes st) \<Longrightarrow>
     \<exists>new. drawn st' a = drawn st a @ new \<and> (\<forall>c\<in>set new. ok c)"
  using grows_by_old [of ok st st' a] grows_by_length [of ok st st']
  by (simp add: drawn_def lookup_axes_def)

lemma np_clip_bounds:
  assumes "lo \<le> hi" "row \<in> set (np_clip arr lo hi)" "v \<in> set row"
  shows "lo \<le> v \<and> v \<le> hi"
  using assms by (auto simp: np_clip_def)






subsection \<open>Parts of the store a call leaves alone\<close>

lemma keeps_D: "keeps sel m \<Longrightarrow> m st = (r, st') \<Longrightarrow> sel st' = sel st"
  unfolding keeps_def by (metis snd_conv)

lemma keeps_returnP [keeps_intros]: "keeps sel (returnP x)"
  by (simp add: keeps_def returnP_def)

lemma keeps_raiseP [keeps_intros]: "keeps sel (raiseP e)"
  by (simp add: keeps_def raiseP_def)

lemma keeps_bindP [keeps_intros]:
  "keeps sel m \<Longrightarrow> (\<And>x. keeps sel (f x)) \<Longrightarrow> keeps sel (bindP m f)"
  unfolding keeps_def bindP_def
  by (auto split: prod.splits sum.splits) (metis snd_conv)+

lemma keeps_thenP [keeps_intros]: "keeps sel m \<Longrightarrow> keeps sel n \<Longrightarrow> keeps sel (thenP m n)"
  unfolding thenP_def by (rule keeps_bindP)

lemma keeps_if [keeps_intros]:
  "(c \<Longrightarrow> keeps sel m) \<Longrightarrow> (\<not> c \<Longrightarrow> keeps sel n) \<Longrightarrow> keeps sel (if c then m else n)"
  by simp

lemma keeps_case_option [keeps_intros]:
  "keeps sel n \<Longrightarrow> (\<And>x. keeps sel (s x)) \<Longrightarrow> keeps sel (case_option n s v)"
  by (cases v) simp_all

lemma keeps_case_prod [keeps_intros]:
  "(\<And>a b. keeps sel (f a b)) \<Longrightarrow> keeps sel (case_prod f p)"
  by (cases p) simp

lemma keeps_Let [keeps_intros]: "keeps sel (f x) \<Longrightarrow> keeps sel (Let x f)"
  by simp

lemma keeps_arrays_ax_call [keeps_intros]: "keeps arrays (ax_call a c)"
  by (auto simp: keeps_def ax_call_def split: option.splits)

lemma keeps_arrays_ax_calls [keeps_intros]: "keeps arrays (ax_calls a cs)"
  by (induction cs) (auto intro: keeps_intros)

lemma keeps_arrays_plt_figure [keeps_intros]: "keeps arrays plt_figure"
  by (simp add: keeps_def plt_figure_def)

lemma keeps_arrays_fig_add_axes [keeps_intros]: "keeps arrays (fig_add_axes f b)"
  by (simp add: keeps_def fig_add_axes_def)

lemma keeps_arrays_default_axes [keeps_intros]: "keeps arrays (default_axes ax b)"
  unfolding default_axes_def by (intro keeps_intros)

lemma keeps_arrays_append_axes [keeps_intros]: "keeps arrays (append_axes a p s d)"
proof -
  have "keeps arrays (bindP (fig_add_axes f False)
            (\<lambda>cax. thenP (ax_call a (AppendAxes p s d cax)) (returnP cax)))" for f
    by (intro keeps_intros)
  then show ?thesis
    unfolding keeps_def append_axes_def by (auto split: option.splits)
qed

lemma keeps_arrays_read_array [keeps_intros]: "keeps arrays (read_array r)"
  by (simp add: keeps_def read_array_def)

lemma keeps_axes_ax_figure_of [keeps_intros]: "keeps axes (ax_figure_of a)"
  by (auto simp: keeps_def ax_figure_of_def split: option.splits)

lemma keeps_axes_figure_canvas_agg [keeps_intros]: "keeps axes (figure_canvas_agg f)"
  by (simp add: keeps_def figure_canvas_agg_def)

lemma keeps_axes_fig_savefig [keeps_intros]: "keeps axes (fig_savefig encode f t fmt)"
  by (auto simp: keeps_def fig_savefig_def split: sink.splits)

lemma keeps_axes_fig_clf [keeps_intros]: "keeps axes (fig_clf f)"
  by (simp add: keeps_def fig_clf_def)


lemma keeps_arrays_pmft_draw: "keeps arrays (pmft_draw p a cmap r)"
  unfolding pmft_draw_def by (intro keeps_intros)

lemma pmft_draw_image:
  assumes "pmft_draw p a cmap r st = (Inr x, st')"
  shows "\<exists>im. Imshow im \<in> set (drawn st' x) \<and> r < length (arrays st)
              \<and> im_data im = np_flipud (arrays st ! r)"
proof -
  obtain xl0 xl1 yl0 yl1 where b: "bounds p = ((xl0, xl1), (yl0, yl1))"
    by (metis prod.exhaust)
  let ?im = "\<lambda>arr. \<lparr>im_data = np_flipud arr, im_extent = [xl0, xl1, yl0, yl1],
                                 im_interpolation = Some ''nearest'', im_cmap = Some cmap,
                                 im_vmin = Some (- 2.5), im_vmax = Some 3.0, im_norm = None\<rparr>"
  from assms obtain s1 cax s2 arr s3 s4 where
    1: "ax_calls a
                         [SetXLim xl0 xl1, SetYLim yl0 yl1,
                          XAxisSetTicks (py_range (py_int xl0) (py_int (xl1 + 1))),
                          YAxisSetTicks (py_range (py_int yl0) (py_int (yl1 + 1))),
                          SetXLabel (Some ''$x$''), SetYLabel (Some ''$y$''),
                          SetTitle (Some ''PMFT'')] st = (Inr (), s1)"
    and 2: "append_axes a ''right'' ''7%'' ''10%'' s1 = (Inr cax, s2)"
    and 3: "read_array r s2 = (Inr arr, s3)"
    and 4: "ax_call a (Imshow (?im arr)) s3 = (Inr (), s4)"
    and 5: "ax_calls cax [Colorbar (MImage (?im arr)), ColorbarSetLabel ''$k_B T$''] s4 = (Inr (), st')"
    and x: "x = a"
    unfolding pmft_draw_def b
    by (auto simp: bindP_Inr thenP_Inr Let_def simp del: ax_calls.simps)
  have a1: "arrays s1 = arrays st"
    using keeps_D [OF keeps_arrays_ax_calls 1] .
  have a2: "arrays s2 = arrays s1"
    using keeps_D [OF keeps_arrays_append_axes 2] .
  have r: "r < length (arrays s2)" "arr = arrays s2 ! r" "s3 = s2"
    using 3 by (auto simp: read_array_def split: if_splits)
  have live: "a < length (axes s3)" and s4: "s4 = record_calls a [Imshow (?im arr)] s3"
    using ax_call_Inr [OF 4] by simp_all
  have d4: "Imshow (?im arr) \<in> set (drawn s4 a)"
    using live s4 by (simp add: drawn_record_calls)
  have "appends (\<lambda>_. True)
          (ax_calls cax [Colorbar (MImage (?im arr)), ColorbarSetLabel ''$k_B T$''])"
    by (intro appends_intros) simp
  then have "grows_by (\<lambda>_. True) s4 st'"
    using 5 appends_D by blast
  then obtain new where "drawn st' a = drawn s4 a @ new"
    using grows_by_drawn [of _ s4 st' a] live s4 by auto
  then have "Imshow (?im arr) \<in> set (drawn st' x)"
    using d4 x by simp
  moreover have "im_data (?im arr) = np_flipud (arrays st ! r)"
    using r a1 a2 by simp
  ultimately show ?thesis
    using r(1) a1 a2 by (intro exI [of _ "?im arr"]) simp
qed

section \<open>The claims\<close>

text \<open>
  C9. \<open>clusters_plot\<close>, called with no axes or with an axes object, draws a bar chart of
  exactly \<open>min(num_clusters_to_plot, number of clusters)\<close> clusters, chosen so that no
  cluster left out has a larger frequency than one drawn; the bars are in non-increasing
  order of frequency and each is labelled by the string of its cluster key.
\<close>

theorem clusters_plot_largest:
  assumes "live_or_none ax st"
  shows "\<exists>a st' sel rest.
      clusters_plot keys freqs n ax st = (Inr a, st')
    \<and> mset (sel @ rest) = mset (zip keys freqs)
    \<and> length sel = min n (length (zip keys freqs))
    \<and> (\<forall>p\<in>set sel. \<forall>q\<in>set rest. snd q \<le> snd p)
    \<and> sorted_wrt (\<ge>) (map snd sel)
    \<and> (\<exists>xlabel.
         drawn st' a = drawn st a @
           [Bar (map (\<lambda>p. TStr (str_int (fst p))) sel) (map snd sel),
            SetTitle (Some ''Cluster Frequency''), SetXLabel xlabel,
            SetYLabel (Some ''Number of particles''),
            SetXTicks (map (\<lambda>p. TStr (str_int (fst p))) sel),
            SetXTickLabels (map (\<lambda>p. TStr (str_int (fst p))) sel)])"
proof -
  define cs where "cs = sort_key (\<lambda>x. - fst x) (map (\<lambda>(key, freq). (freq, key)) (zip keys freqs))"
  define sw where "sw = (\<lambda>(f :: real, k :: int). (k, f))"
  define sel where "sel = map sw (take n cs)"
  define rest where "rest = map sw (drop n cs)"
  have sw_inv: "map sw (map (\<lambda>(key, freq). (freq, key)) xs) = xs" for xs
    by (induction xs) (auto simp: sw_def)
  have mcs: "mset cs = mset (map (\<lambda>(key, freq). (freq, key)) (zip keys freqs))"
    unfolding cs_def by simp
  have "mset (sel @ rest) = mset (map sw cs)"
    unfolding sel_def rest_def by (simp flip: map_append)
  also have "\<dots> = image_mset sw (mset cs)"
    by (simp only: mset_map)
  also have "\<dots> = mset (map sw (map (\<lambda>(key, freq). (freq, key)) (zip keys freqs)))"
    by (simp only: mcs mset_map)
  finally have m: "mset (sel @ rest) = mset (zip keys freqs)"
    by (simp only: sw_inv)
  have l: "length sel = min n (length (zip keys freqs))"
    unfolding sel_def cs_def by (simp add: min.commute)
  have "sorted (map (\<lambda>x. - fst x) cs)"
    unfolding cs_def by simp
  then have "sorted_wrt (\<lambda>p q. fst q \<le> fst p) (take n cs @ drop n cs)"
    by (simp add: sorted_desc)
  then have s: "sorted_wrt (\<lambda>p q. fst q \<le> fst p) (take n cs)"
    and b: "\<forall>p\<in>set (take n cs). \<forall>q\<in>set (drop n cs). fst q \<le> fst p"
    unfolding sorted_wrt_append by auto
  have s': "sorted_wrt (\<ge>) (map snd sel)"
    using s unfolding sel_def by (simp add: sorted_wrt_map sw_def case_prod_beta)
  have b': "\<forall>p\<in>set sel. \<forall>q\<in>set rest. snd q \<le> snd p"
    using b unfolding sel_def rest_def by (fastforce simp: sw_def)
  have h: "map fst (take n cs) = map snd sel"
    unfolding sel_def by (simp add: sw_def case_prod_beta)
  have k: "map (\<lambda>i. TStr (str_int (snd i))) (take n cs) = map (\<lambda>p. TStr (str_int (fst p))) sel"
    unfolding sel_def by (simp add: sw_def case_prod_beta)
  obtain a st' where r: "clusters_plot keys freqs n ax st = (Inr a, st')"
    and d: "drawn st' a = drawn st a @
           [Bar (map (\<lambda>p. TStr (str_int (fst p))) sel) (map snd sel),
            SetTitle (Some ''Cluster Frequency''),
            SetXLabel (Some (''Keys of '' @ str_nat (length (map snd sel))
                  @ '' largest clusters (total clusters: '' @ str_nat (length freqs) @ '')'')),
            SetYLabel (Some ''Number of particles''),
            SetXTicks (map (\<lambda>p. TStr (str_int (fst p))) sel),
            SetXTickLabels (map (\<lambda>p. TStr (str_int (fst p))) sel)]"
    using bar_plot_effect[OF assms, of "map (\<lambda>p. TStr (str_int (fst p))) sel" "map snd sel"
        "Some ''Cluster Frequency''"
        "Some (''Keys of '' @ str_nat (length (map snd sel))
                  @ '' largest clusters (total clusters: '' @ str_nat (length freqs) @ '')'')"
        "Some ''Number of particles''"]
    unfolding clusters_plot_def Let_def cs_def[symmetric] h k by blast
  show ?thesis
    using r m l b' s' d by blast
qed

theorem clusters_plot_largest_witness:
  "live_or_none None world0 \<and>
   (\<exists>a st' sel rest.
      clusters_plot [1, 2, 3] [5, 9, 7] 2 None world0 = (Inr a, st')
    \<and> mset (sel @ rest) = mset (zip [1, 2, 3] [5, 9, 7 :: real])
    \<and> length sel = min 2 (length (zip [1, 2, 3 :: int] [5, 9, 7 :: real]))
    \<and> (\<forall>p\<in>set sel. \<forall>q\<in>set rest. snd q \<le> snd p)
    \<and> sorted_wrt (\<ge>) (map snd sel)
    \<and> (\<exists>xlabel.
         drawn st' a = drawn world0 a @
           [Bar (map (\<lambda>p. TStr (str_int (fst p))) sel) (map snd sel),
            SetTitle (Some ''Cluster Frequency''), SetXLabel xlabel,
            SetYLabel (Some ''Number of particles''),
            SetXTicks (map (\<lambda>p. TStr (str_int (fst p))) sel),
            SetXTickLabels (map (\<lambda>p. TStr (str_int (fst p))) sel)]))"
  using clusters_plot_largest [of None world0 "[1, 2, 3]" "[5, 9, 7]" 2]
  by (simp add: live_or_none_def)

text \<open>
  C1. \<open>voronoi_plot\<close> raises a RuntimeError exactly when \<open>color_by\<close> is none of
  \<open>'sides'\<close>, \<open>'area'\<close> and \<open>None\<close>: for any other value it raises the RuntimeError whose
  message is \<open>Invalid color_by option\<close>, the value and a full stop; for these three values
  it raises no RuntimeError, whatever else happens.
\<close>

theorem voronoi_plot_color_by:
  "(color_by \<notin> {None, Some ''sides'', Some ''area''} \<longrightarrow>
      (\<exists>st'. voronoi_plot permutation voronoi bx ax color_by cmap st =
         (Inl (RuntimeError (''Invalid color_by option '' @ the color_by @ ''.'')), st')))
   \<and> (color_by \<in> {None, Some ''sides'', Some ''area''} \<longrightarrow>
      (\<forall>msg. fst (voronoi_plot permutation voronoi bx ax color_by cmap st)
                \<noteq> Inl (RuntimeError msg)))"
proof (intro conjI impI allI)
  assume "color_by \<notin> {None, Some ''sides'', Some ''area''}"
  then show "\<exists>st'. voronoi_plot permutation voronoi bx ax color_by cmap st =
         (Inl (RuntimeError (''Invalid color_by option '' @ the color_by @ ''.'')), st')"
    using voronoi_plot_invalid by blast
next
  fix msg
  assume v: "color_by \<in> {None, Some ''sides'', Some ''area''}"
  show "fst (voronoi_plot permutation voronoi bx ax color_by cmap st) \<noteq> Inl (RuntimeError msg)"
  proof
    assume "fst (voronoi_plot permutation voronoi bx ax color_by cmap st) = Inl (RuntimeError msg)"
    then have "voronoi_plot permutation voronoi bx ax color_by cmap st =
        (Inl (RuntimeError msg), snd (voronoi_plot permutation voronoi bx ax color_by cmap st))"
      by (metis prod.collapse)
    then show False
      using nre_voronoi_plot[OF v] unfolding no_runtime_error_def
      by (metis is_runtime_error.simps(1))
  qed
qed

theorem voronoi_plot_color_by_witness:
  "Some ''perimeter'' \<notin> {None, Some ''sides'', Some ''area''}
   \<and> (\<exists>st'. voronoi_plot id two_cells unit_box None (Some ''perimeter'') None world0 =
         (Inl (RuntimeError ''Invalid color_by option perimeter.''), st'))
   \<and> Some ''sides'' \<in> {None, Some ''sides'', Some ''area''}
   \<and> (\<forall>msg. fst (voronoi_plot id two_cells unit_box None (Some ''sides'') None world0)
                \<noteq> Inl (RuntimeError msg))"
  using voronoi_plot_color_by [where color_by = "Some ''perimeter''" and permutation = id
          and voronoi = two_cells and bx = unit_box and ax = None and cmap = None and st = world0]
        voronoi_plot_color_by [where color_by = "Some ''sides''" and permutation = id
          and voronoi = two_cells and bx = unit_box and ax = None and cmap = None and st = world0]
  by simp

text \<open>
  C10. When \<open>voronoi_plot\<close>, called on the caller's axes, raises a RuntimeError, the store
  is the one it was called in: nothing was drawn on the caller's axes, and nothing else
  was changed either.
\<close>

theorem voronoi_plot_error_leaves_axes:
  assumes "voronoi_plot permutation voronoi bx (Some a) color_by cmap st
             = (Inl (RuntimeError msg), st')"
  shows "st' = st \<and> lookup_axes a st' = lookup_axes a st"
proof (cases "color_by \<in> {None, Some ''sides'', Some ''area''}")
  case True
  then show ?thesis
    using nre_voronoi_plot[OF True] assms unfolding no_runtime_error_def
    by (metis is_runtime_error.simps(1))
next
  case False
  then show ?thesis
    using assms voronoi_plot_invalid[OF False, of permutation voronoi bx "Some a" cmap st]
    by auto
qed

theorem voronoi_plot_error_leaves_axes_witness:
  "voronoi_plot id two_cells unit_box (Some 0) (Some ''perimeter'') None world1
     = (Inl (RuntimeError ''Invalid color_by option perimeter.''),
        snd (voronoi_plot id two_cells unit_box (Some 0) (Some ''perimeter'') None world1))
   \<and> snd (voronoi_plot id two_cells unit_box (Some 0) (Some ''perimeter'') None world1) = world1
   \<and> lookup_axes 0 (snd (voronoi_plot id two_cells unit_box (Some 0) (Some ''perimeter'') None world1))
       = lookup_axes 0 world1"
proof -
  have h: "voronoi_plot id two_cells unit_box (Some 0) (Some ''perimeter'') None world1
     = (Inl (RuntimeError ''Invalid color_by option perimeter.''),
        snd (voronoi_plot id two_cells unit_box (Some 0) (Some ''perimeter'') None world1))"
    by code_simp
  show ?thesis
    using voronoi_plot_error_leaves_axes [OF h] h by simp
qed

text \<open>
  C4, as the code has it. What \<open>voronoi_plot\<close> draws depends on the random generator
  through the permutation it draws alone, and with a colouring mode it does not depend on
  the generator at all. (The other helpers consult no generator: they are functions of
  their inputs and of the store.)
\<close>

theorem voronoi_plot_random_without_mode:
  assumes "color_by \<noteq> None
           \<or> p1 [0..<length (polytopes voronoi)] = p2 [0..<length (polytopes voronoi)]"
  shows "voronoi_plot p1 voronoi bx ax color_by cmap st
           = voronoi_plot p2 voronoi bx ax color_by cmap st"
proof -
  have "cell_colors p1 voronoi (map (map (\<lambda>v. (vx v, vy v))) (polytopes voronoi)) color_by
      = cell_colors p2 voronoi (map (map (\<lambda>v. (vx v, vy v))) (polytopes voronoi)) color_by"
    using assms by (auto simp: cell_colors_def)
  then have "voronoi_patches p1 voronoi color_by cmap = voronoi_patches p2 voronoi color_by cmap"
    unfolding voronoi_patches_def Let_def by simp
  then show ?thesis
    unfolding voronoi_plot_def by simp
qed

theorem voronoi_plot_random_without_mode_witness:
  "Some ''sides'' \<noteq> (None :: string option)
   \<and> voronoi_plot id two_cells unit_box None (Some ''sides'') None world0
       = voronoi_plot rev two_cells unit_box None (Some ''sides'') None world0"
  using voronoi_plot_random_without_mode [where color_by = "Some ''sides''" and ?p1.0 = id
          and ?p2.0 = rev and voronoi = two_cells and bx = unit_box and ax = None
          and cmap = None and st = world0]
  by simp

text \<open>
  As C4 is stated, it fails: with no colouring mode, \<open>voronoi_plot\<close> colours the cells by
  a permutation that a newly seeded generator draws, so two calls with the same inputs can
  draw different elements. Here the generator draws the two orders of two cells.
\<close>

theorem voronoi_plot_deterministic_counterexample:
  "voronoi_plot id two_cells unit_box None None None world0
     \<noteq> voronoi_plot rev two_cells unit_box None None None world0"
  by code_simp

text \<open>
  C2. Each plotting helper that returns, called with an axes object, returns that same
  object, on which the calls made before are still recorded, followed by the new ones;
  called with no axes, it returns an axes object that was not in the store before.
\<close>

theorem helpers_return_their_axes:
  "returns_axes ax id (box_plot bx title ax img args kw)
   \<and> returns_axes ax fst (system_plot sys title ax args kw)
   \<and> returns_axes ax id (bar_plot x height title xlabel ylabel ax)
   \<and> returns_axes ax id (clusters_plot keys freqs n ax)
   \<and> returns_axes ax id (line_plot xs ys title xlabel ylabel ax)
   \<and> returns_axes ax id (histogram_plot vals title xlabel ylabel ax legend_labels)
   \<and> returns_axes ax id (pmft_plot p ax cmap)
   \<and> returns_axes ax id (density_plot density bx ax)
   \<and> returns_axes ax id (voronoi_plot permutation voronoi bx ax color_by cmap_opt)
   \<and> returns_axes ax id (diffraction_plot diffraction k_values N_points ax cmap vmin vmax)"
proof -
  have gen: "returns_axes ax proj m"
    if "\<And>st x st'. m st = (Inr x, st') \<Longrightarrow> result_ok ax st (proj x) st'" and "appends ok m"
    for proj :: "'a \<Rightarrow> ref" and m ok
    unfolding returns_axes_def
    using that result_ok_same_or_new appends_D by blast
  have "returns_axes ax id (box_plot bx title ax img args kw)"
    by (rule gen [OF _ appends_box_plot]) (simp add: box_plot_result)
  moreover have "returns_axes ax fst (system_plot sys title ax args kw)"
    by (rule gen [OF _ appends_system_plot]) (metis system_plot_result prod.collapse)
  moreover have "returns_axes ax id (bar_plot x height title xlabel ylabel ax)"
    by (rule gen [OF _ appends_bar_plot [of "\<lambda>_. True"]]) (simp_all add: bar_plot_result)
  moreover have "returns_axes ax id (clusters_plot keys freqs n ax)"
    unfolding clusters_plot_def Let_def
    by (rule gen [OF _ appends_bar_plot [of "\<lambda>_. True"]]) (simp_all add: bar_plot_result)
  moreover have "returns_axes ax id (line_plot xs ys title xlabel ylabel ax)"
    by (rule gen [OF _ appends_line_plot]) (simp add: line_plot_result)
  moreover have "returns_axes ax id (histogram_plot vals title xlabel ylabel ax legend_labels)"
    by (rule gen [OF _ appends_histogram_plot]) (simp add: histogram_plot_result)
  moreover have "returns_axes ax id (pmft_plot p ax cmap)"
    by (rule gen [OF _ appends_pmft_plot]) (simp add: pmft_plot_result)
  moreover have "returns_axes ax id (density_plot density bx ax)"
    by (rule gen [OF _ appends_density_plot]) (simp add: density_plot_result)
  moreover have "returns_axes ax id (voronoi_plot permutation voronoi bx ax color_by cmap_opt)"
    by (rule gen [OF _ appends_voronoi_plot]) (simp add: voronoi_plot_result)
  moreover have
    "returns_axes ax id (diffraction_plot diffraction k_values N_points ax cmap vmin vmax)"
    by (rule gen [OF _ appends_diffraction_plot]) (simp add: diffraction_plot_result)
  ultimately show ?thesis by blast
qed

theorem helpers_return_their_axes_witness:
  "line_plot [0, 1] [2, 3] None None None (Some 0) world1
     = (Inr 0, snd (line_plot [0, 1] [2, 3] None None None (Some 0) world1))
   \<and> same_or_new_axes (Some 0) world1 0
        (snd (line_plot [0, 1] [2, 3] None None None (Some 0) world1))
   \<and> box_plot unit_box None None None [] [] world1
     = (Inr 1, snd (box_plot unit_box None None None [] [] world1))
   \<and> same_or_new_axes None world1 1 (snd (box_plot unit_box None None None [] [] world1))"
proof -
  have h1: "line_plot [0, 1] [2, 3] None None None (Some 0) world1
     = (Inr 0, snd (line_plot [0, 1] [2, 3] None None None (Some 0) world1))"
    by code_simp
  have h2: "box_plot unit_box None None None [] [] world1
     = (Inr 1, snd (box_plot unit_box None None None [] [] world1))"
    by code_simp
  have "returns_axes (Some 0) id (line_plot [0, 1] [2, 3] None None None (Some 0))"
    using helpers_return_their_axes [where ax = "Some 0" and xs = "[0, 1]" and ys = "[2, 3]"
            and title = None and xlabel = None and ylabel = None]
    by simp
  then have c1: "same_or_new_axes (Some 0) world1 0
        (snd (line_plot [0, 1] [2, 3] None None None (Some 0) world1))"
    unfolding returns_axes_def using h1 by (metis id_apply)
  have "returns_axes None id (box_plot unit_box None None None [] [])"
    using helpers_return_their_axes [where ax = None and bx = unit_box and title = None
            and img = None and args = "[]" and kw = "[]"]
    by simp
  then have c2: "same_or_new_axes None world1 1
        (snd (box_plot unit_box None None None [] [] world1))"
    unfolding returns_axes_def using h2 by (metis id_apply)
  show ?thesis using h1 h2 c1 c2 by blast
qed

text \<open>
  C3. Each plotting helper that returns, returns an axes object of the store:
  \<open>system_plot\<close> as the first component of a pair, beside the scatter handle, and the
  others as their result.
\<close>

theorem helpers_return_live_axes:
  "returns_live_axes id (box_plot bx title ax img args kw)
   \<and> returns_live_axes fst (system_plot sys title ax args kw)
   \<and> returns_live_axes id (bar_plot x height title xlabel ylabel ax)
   \<and> returns_live_axes id (clusters_plot keys freqs n ax)
   \<and> returns_live_axes id (line_plot xs ys title xlabel ylabel ax)
   \<and> returns_live_axes id (histogram_plot vals title xlabel ylabel ax legend_labels)
   \<and> returns_live_axes id (pmft_plot p ax cmap)
   \<and> returns_live_axes id (density_plot density bx ax)
   \<and> returns_live_axes id (voronoi_plot permutation voronoi bx ax color_by cmap_opt)
   \<and> returns_live_axes id (diffraction_plot diffraction k_values N_points ax cmap vmin vmax)"
proof -
  have gen: "returns_live_axes proj m"
    if "\<And>st x st'. m st = (Inr x, st') \<Longrightarrow> result_ok ax st (proj x) st'"
    for proj :: "'a \<Rightarrow> ref" and m
    unfolding returns_live_axes_def
    using that result_ok_live by blast
  have "returns_live_axes id (box_plot bx title ax img args kw)"
    by (rule gen) (simp add: box_plot_result)
  moreover have "returns_live_axes fst (system_plot sys title ax args kw)"
    by (rule gen) (metis system_plot_result prod.collapse)
  moreover have "returns_live_axes id (bar_plot x height title xlabel ylabel ax)"
    by (rule gen) (simp add: bar_plot_result)
  moreover have "returns_live_axes id (clusters_plot keys freqs n ax)"
    by (rule gen) (simp add: clusters_plot_result)
  moreover have "returns_live_axes id (line_plot xs ys title xlabel ylabel ax)"
    by (rule gen) (simp add: line_plot_result)
  moreover have
    "returns_live_axes id (histogram_plot vals title xlabel ylabel ax legend_labels)"
    by (rule gen) (simp add: histogram_plot_result)
  moreover have "returns_live_axes id (pmft_plot p ax cmap)"
    by (rule gen) (simp add: pmft_plot_result)
  moreover have "returns_live_axes id (density_plot density bx ax)"
    by (rule gen) (simp add: density_plot_result)
  moreover have
    "returns_live_axes id (voronoi_plot permutation voronoi bx ax color_by cmap_opt)"
    by (rule gen) (simp add: voronoi_plot_result)
  moreover have
    "returns_live_axes id (diffraction_plot diffraction k_values N_points ax cmap vmin vmax)"
    by (rule gen) (simp add: diffraction_plot_result)
  ultimately show ?thesis by blast
qed

theorem helpers_return_live_axes_witness:
  "system_plot \<lparr>sys_box = unit_box, sys_points = [(0, 0, 0)]\<rparr> None None [] [] world0
     = (Inr (0, Scatter [0] [0] [] []),
        snd (system_plot \<lparr>sys_box = unit_box, sys_points = [(0, 0, 0)]\<rparr> None None [] [] world0))
   \<and> lookup_axes 0
        (snd (system_plot \<lparr>sys_box = unit_box, sys_points = [(0, 0, 0)]\<rparr> None None [] [] world0))
       \<noteq> None"
proof -
  have h: "system_plot \<lparr>sys_box = unit_box, sys_points = [(0, 0, 0)]\<rparr> None None [] [] world0
     = (Inr (0, Scatter [0] [0] [] []),
        snd (system_plot \<lparr>sys_box = unit_box, sys_points = [(0, 0, 0)]\<rparr> None None [] [] world0))"
    by code_simp
  have "returns_live_axes fst
          (system_plot \<lparr>sys_box = unit_box, sys_points = [(0, 0, 0)]\<rparr> None None [] [])"
    using helpers_return_live_axes [where sys = "\<lparr>sys_box = unit_box, sys_points = [(0, 0, 0)]\<rparr>"
            and title = None and ax = None and args = "[]" and kw = "[]"]
    by simp
  then show ?thesis
    unfolding returns_live_axes_def using h by (metis fst_conv)
qed

text \<open>
  C5. \<open>_ax_to_bytes\<close>, given an axes object of a figure, returns the bytes that the
  library's PNG rendering of that figure gives, as the figure was when the call was made,
  and leaves the files as they were: the figure is saved into a buffer in memory.
\<close>

theorem ax_to_bytes_png:
  assumes "lookup_axes a st = Some obj" "ax_figure obj < length (figures st)"
  shows "\<exists>st'. ax_to_bytes encode a st
                 = (Inr (encode ''png'' (fig_content st (ax_figure obj))), st')
               \<and> files st' = files st"
proof -
  let ?f = "ax_figure obj"
  let ?s1 = "st\<lparr>figures := (figures st)[?f := (figures st ! ?f)\<lparr>fig_canvas := ''agg''\<rparr>]\<rparr>"
  have 1: "ax_figure_of a st = (Inr ?f, st)"
    using assms(1) by (simp add: ax_figure_of_def)
  have 2: "figure_canvas_agg ?f st = (Inr (), ?s1)"
    using assms(2) by (simp add: figure_canvas_agg_def)
  have c: "fig_content ?s1 ?f = fig_content st ?f"
    using assms(2) by (simp add: fig_content_def drawn_def lookup_axes_def cong: map_cong)
  have 3: "fig_savefig encode ?f Buffer ''png'' ?s1 = (Inr (encode ''png'' (fig_content st ?f)), ?s1)"
    using assms(2) c by (simp add: fig_savefig_def)
  obtain s2 where 4: "fig_clf ?f ?s1 = (Inr (), s2)" and 5: "files s2 = files st"
    using assms(2) by (simp add: fig_clf_def)
  have "ax_to_bytes encode a st = (Inr (encode ''png'' (fig_content st ?f)), s2)"
    unfolding ax_to_bytes_def bindP_def thenP_def by (simp only: 1 2 3 4 prod.case sum.case returnP_def)
  then show ?thesis
    using 5 by blast
qed

theorem ax_to_bytes_png_witness:
  "lookup_axes 0 world1 = Some (axes world1 ! 0)
   \<and> ax_figure (axes world1 ! 0) < length (figures world1)
   \<and> (\<exists>st'. ax_to_bytes sample_encode 0 world1
                 = (Inr (sample_encode ''png'' (fig_content world1 (ax_figure (axes world1 ! 0)))),
                    st')
               \<and> files st' = files world1)"
proof -
  have h1: "lookup_axes 0 world1 = Some (axes world1 ! 0)"
    by (simp add: lookup_axes_def world1_def)
  have h2: "ax_figure (axes world1 ! 0) < length (figures world1)"
    by (simp add: world1_def)
  show ?thesis
    using ax_to_bytes_png [OF h1 h2, of sample_encode] h1 h2 by blast
qed

text \<open>
  C6. \<open>pmft_plot\<close> leaves every array of the caller as it was, the array of the PMFT
  object among them, whether it returns or raises; when it returns, the image it has
  drawn shows the array with NaN in the place of its infinite entries, flipped upside
  down: the substitution was made in a copy.
\<close>

theorem pmft_plot_keeps_pmft_array:
  assumes "pmft_plot p ax cmap st = (res, st')"
  shows "(\<forall>r<length (arrays st). r < length (arrays st') \<and> arrays st' ! r = arrays st ! r)
       \<and> (\<forall>a. res = Inr a \<longrightarrow>
            (\<exists>im. Imshow im \<in> set (drawn st' a)
                \<and> im_data im = np_flipud
                     (map (map (\<lambda>v. if isinf v then NaN else v)) (arrays st ! pmft p))))"
proof -
  obtain a s1 where 1: "default_axes ax False st = (Inr a, s1)"
    using default_axes_total by blast
  have a1: "arrays s1 = arrays st"
    using keeps_D [OF keeps_arrays_default_axes 1] .
  have run: "pmft_plot p ax cmap st
      = bindP (np_copy (pmft p)) (\<lambda>pmft_arr.
         thenP (set_inf_to_nan pmft_arr) (pmft_draw p a cmap pmft_arr)) s1"
    unfolding pmft_plot_def by (simp add: bindP_def 1)
  show ?thesis
  proof (cases "pmft p < length (arrays s1)")
    case False
    then have "pmft_plot p ax cmap st = (Inl (AttributeError ''not an array''), s1)"
      unfolding run by (simp add: bindP_def np_copy_def)
    then show ?thesis
      using assms a1 by auto
  next
    case True
    let ?n = "length (arrays s1)"
    let ?copy = "map (map (\<lambda>v. if isinf v then NaN else v)) (arrays s1 ! pmft p)"
    let ?s2 = "s1\<lparr>arrays := arrays s1 @ [arrays s1 ! pmft p]\<rparr>"
    let ?s3 = "s1\<lparr>arrays := arrays s1 @ [?copy]\<rparr>"
    have 2: "np_copy (pmft p) s1 = (Inr ?n, ?s2)"
      using True by (simp add: np_copy_def)
    have 3: "set_inf_to_nan ?n ?s2 = (Inr (), ?s3)"
      by (simp add: set_inf_to_nan_def)
    have run': "pmft_plot p ax cmap st = pmft_draw p a cmap ?n ?s3"
      unfolding run by (simp add: bindP_def thenP_def 2 3)
    then have d: "pmft_draw p a cmap ?n ?s3 = (res, st')"
      using assms by simp
    have a3: "arrays st' = arrays st @ [?copy]"
      using keeps_D [OF keeps_arrays_pmft_draw d] a1 by simp
    have img: "\<exists>im. Imshow im \<in> set (drawn st' x)
                \<and> im_data im = np_flipud
                     (map (map (\<lambda>v. if isinf v then NaN else v)) (arrays st ! pmft p))"
      if "res = Inr x" for x
      using pmft_draw_image [of p a cmap ?n ?s3 x st'] d that a1 by auto
    show ?thesis
      using a3 img by (auto simp: nth_append)
  qed
qed

theorem pmft_plot_keeps_pmft_array_witness:
  "pmft_plot pmft0 None ''viridis'' world_pmft
     = (Inr 0, snd (pmft_plot pmft0 None ''viridis'' world_pmft))
   \<and> arrays (snd (pmft_plot pmft0 None ''viridis'' world_pmft)) ! 0
       = [[Fin 1, PInf], [NInf, Fin 2]]
   \<and> (\<exists>im. Imshow im \<in> set (drawn (snd (pmft_plot pmft0 None ''viridis'' world_pmft)) 0)
           \<and> im_data im = [[NaN, Fin 2], [Fin 1, NaN]])"
proof -
  have h: "pmft_plot pmft0 None ''viridis'' world_pmft
     = (Inr 0, snd (pmft_plot pmft0 None ''viridis'' world_pmft))"
    by code_simp
  have a: "arrays world_pmft = [[[Fin 1, PInf], [NInf, Fin 2]]]" "pmft pmft0 = 0"
    by (simp_all add: world_pmft_def pmft0_def)
  show ?thesis
    using pmft_plot_keeps_pmft_array [OF h] h
    by (simp add: a np_flipud_def)
qed



text \<open>
  C8. \<open>diffraction_plot\<close>, when it returns, has drawn first an image with a logarithmic
  colour normalisation between \<open>vmin\<close> and \<open>vmax\<close>, which are \<open>4e-6 * N_points\<close> and
  \<open>0.7 * N_points\<close> where the caller passes \<open>None\<close>; the data of the image are those
  given, clipped by \<open>np.clip\<close> to \<open>vmin\<close> and \<open>vmax\<close>, and so lie between the two whenever
  \<open>vmin\<close> is at most \<open>vmax\<close>.
\<close>

theorem diffraction_plot_log_image:
  assumes "diffraction_plot diffraction k_values N_points ax cmap vmin vmax st = (Inr a, st')"
  shows "let lo = (case vmin of None \<Rightarrow> 4 / 1000000 * real_of_int N_points | Some v \<Rightarrow> v);
             hi = (case vmax of None \<Rightarrow> 0.7 * real_of_int N_points | Some v \<Rightarrow> v)
         in \<exists>im rest.
              drawn st' a = drawn st a @ Imshow im # rest
            \<and> im_norm im = Some (LogNorm lo hi)
            \<and> im_data im = map (map Fin) (np_clip diffraction lo hi)
            \<and> np_clip diffraction lo hi = map (map (\<lambda>v. min (max v lo) hi)) diffraction
            \<and> (lo \<le> hi \<longrightarrow>
                 (\<forall>row\<in>set (np_clip diffraction lo hi). \<forall>v\<in>set row. lo \<le> v \<and> v \<le> hi))"
proof -
  define lo where "lo = (case vmin of None \<Rightarrow> 4 / 1000000 * real_of_int N_points | Some v \<Rightarrow> v)"
  define hi where "hi = (case vmax of None \<Rightarrow> 0.7 * real_of_int N_points | Some v \<Rightarrow> v)"
  define k where "k = (\<lambda>a (im :: image).
     bindP (append_axes a ''right'' ''7%'' ''10%'') (\<lambda>cax.
                        thenP (ax_calls cax
                                 [Colorbar (MImage im), ColorbarSetLabel (''$S('' @ CHR 0x5C # ''vec{k})$'')])
                          (thenP (ax_calls a
                                    [XAxisSetMajorLocator 6 True 7, YAxisSetMajorLocator 6 True 7,
                                     XAxisSetMajorFormatter ''%.3g'',
                                     YAxisSetMajorFormatter ''%.3g'',
                                     SetTitle (Some ''Diffraction Pattern''),
                                     SetAspect ''equal'' ''datalim'',
                                     SetXLabel (Some ''$k_x$''), SetYLabel (Some ''$k_y$'')])
                             (returnP a))))"
  have kapp: "appends (\<lambda>_. True) (k a0 im)" for a0 im
    unfolding k_def by (intro appends_intros) simp_all
  from assms obtain a0 s1 kmin kmax s2 where
    1: "default_axes ax False st = (Inr a0, s1)"
    and 2: "ax_call a0 (Imshow \<lparr>im_data = map (map Fin) (np_clip diffraction lo hi),
                          im_extent = [kmin, kmax, kmin, kmax],
                          im_interpolation = Some ''nearest'', im_cmap = Some cmap,
                          im_vmin = None, im_vmax = None, im_norm = Some (LogNorm lo hi)\<rparr>) s1
             = (Inr (), s2)"
    and 3: "k a0 \<lparr>im_data = map (map Fin) (np_clip diffraction lo hi),
                          im_extent = [kmin, kmax, kmin, kmax],
                          im_interpolation = Some ''nearest'', im_cmap = Some cmap,
                          im_vmin = None, im_vmax = None, im_norm = Some (LogNorm lo hi)\<rparr> s2
             = (Inr a, st')"
    unfolding diffraction_plot_def Let_def lo_def [symmetric] hi_def [symmetric] k_def
    by (auto simp: bindP_Inr thenP_Inr simp del: ax_calls.simps dest!: np_min_D np_max_D)
  let ?im = "\<lparr>im_data = map (map Fin) (np_clip diffraction lo hi),
                          im_extent = [kmin, kmax, kmin, kmax],
                          im_interpolation = Some ''nearest'', im_cmap = Some cmap,
                          im_vmin = None, im_vmax = None, im_norm = Some (LogNorm lo hi)\<rparr>"
  have a: "a = a0"
    using 3 unfolding k_def by (auto simp: bindP_Inr thenP_Inr simp del: ax_calls.simps)
  have live: "a0 < length (axes s1)" and s2: "s2 = record_calls a0 [Imshow ?im] s1"
    using ax_call_Inr [OF 2] by simp_all
  have d2: "drawn s2 a0 = drawn st a0 @ [Imshow ?im]"
    using live s2 default_axes_drawn [OF 1] by (simp add: drawn_record_calls)
  have "grows_by (\<lambda>_. True) s2 st'"
    using appends_D [OF kapp 3] .
  then obtain new where "drawn st' a0 = drawn s2 a0 @ new"
    using grows_by_drawn [of _ s2 st' a0] live s2 by auto
  then have f1: "drawn st' a = drawn st a @ Imshow ?im # new"
    using d2 a by simp
  have f2: "lo \<le> hi \<longrightarrow>
                 (\<forall>row\<in>set (np_clip diffraction lo hi). \<forall>v\<in>set row. lo \<le> v \<and> v \<le> hi)"
    using np_clip_bounds by blast
  have f3: "np_clip diffraction lo hi = map (map (\<lambda>v. min (max v lo) hi)) diffraction"
    by (simp add: np_clip_def)
  have f4: "im_norm ?im = Some (LogNorm lo hi)"
    by simp
  have f5: "im_data ?im = map (map Fin) (np_clip diffraction lo hi)"
    by simp
  have "\<exists>im rest.
              drawn st' a = drawn st a @ Imshow im # rest
            \<and> im_norm im = Some (LogNorm lo hi)
            \<and> im_data im = map (map Fin) (np_clip diffraction lo hi)
            \<and> np_clip diffraction lo hi = map (map (\<lambda>v. min (max v lo) hi)) diffraction
            \<and> (lo \<le> hi \<longrightarrow>
                 (\<forall>row\<in>set (np_clip diffraction lo hi). \<forall>v\<in>set row. lo \<le> v \<and> v \<le> hi))"
    by (intro exI [of _ ?im] exI [of _ new] conjI f1 f2 f3 f4 f5)
  then show ?thesis
    unfolding Let_def lo_def hi_def .
qed

theorem diffraction_plot_log_image_witness:
  "diffraction_plot [[0, 5], [100, 1]] [- 1, 1] 10 None ''afmhot'' None None world0
     = (Inr 0, snd (diffraction_plot [[0, 5], [100, 1]] [- 1, 1] 10 None ''afmhot'' None None world0))
   \<and> (\<exists>im rest.
         drawn (snd (diffraction_plot [[0, 5], [100, 1]] [- 1, 1] 10 None ''afmhot'' None None world0)) 0
           = Imshow im # rest
       \<and> im_norm im = Some (LogNorm (4 / 100000) 7)
       \<and> im_data im = [[Fin (4 / 100000), Fin 5], [Fin 7, Fin 1]])"
proof -
  have h: "diffraction_plot [[0, 5], [100, 1]] [- 1, 1] 10 None ''afmhot'' None None world0
     = (Inr 0, snd (diffraction_plot [[0, 5], [100, 1]] [- 1, 1] 10 None ''afmhot'' None None world0))"
    by code_simp
  have d: "drawn world0 0 = []"
    by (simp add: drawn_def lookup_axes_def world0_def)
  show ?thesis
    using diffraction_plot_log_image [OF h] h
    by (simp add: Let_def d np_clip_def)
qed

end
